theory Spec2Isabelle
  imports Main
begin

unbundle bit_operations_syntax

section \<open>Wire-format codec (MIDIStatus.ts, MIDIMessage.ts)\<close>

subsection \<open>Frames and JavaScript reads\<close>

text \<open>
  A frame is the content of a \<^verbatim>\<open>Uint8Array\<close> (or of a \<^verbatim>\<open>number[]\<close>): a list of numbers.
  Reading \<^verbatim>\<open>data[i]\<close> past the end yields \<^verbatim>\<open>undefined\<close>, modelled as \<open>None\<close>.
  Building a \<^verbatim>\<open>Uint8Array\<close> from numbers reduces each of them modulo 256.
\<close>

type_synonym frame = "nat list"

definition byte_at :: "nat list \<Rightarrow> nat \<Rightarrow> nat option" where
  "byte_at d i = (if i < length d then Some (d ! i) else None)"

definition Uint8Array_of :: "nat list \<Rightarrow> frame" where
  "Uint8Array_of bytes = map (\<lambda>b. b mod 256) bytes"

text \<open>\<^verbatim>\<open>x & k\<close>: the operand \<^verbatim>\<open>undefined\<close> is coerced to 0.\<close>

definition bit_and :: "nat option \<Rightarrow> nat \<Rightarrow> nat" where
  "bit_and x k = (case x of None \<Rightarrow> 0 | Some b \<Rightarrow> b AND k)"

subsection \<open>Status codes (enum MIDIStatus)\<close>

definition NoteOff :: nat where "NoteOff = 0x80"
definition NoteOn :: nat where "NoteOn = 0x90"
definition KeyPressure :: nat where "KeyPressure = 0xA0"
definition ControlChange :: nat where "ControlChange = 0xB0"
definition ProgramChange :: nat where "ProgramChange = 0xC0"
definition ChannelPressure :: nat where "ChannelPressure = 0xD0"
definition PitchBend :: nat where "PitchBend = 0xE0"
definition SystemExclusive :: nat where "SystemExclusive = 0xF0"

datatype MIDIMessageType = Channel | System | SysEx

subsection \<open>Frame builders\<close>

definition noteOn :: "nat \<Rightarrow> nat \<Rightarrow> nat \<Rightarrow> frame" where
  "noteOn channel note velocity = Uint8Array_of [NoteOn OR channel, note, velocity]"

definition noteOff :: "nat \<Rightarrow> nat \<Rightarrow> nat \<Rightarrow> frame" where
  "noteOff channel note velocity = Uint8Array_of [NoteOff OR channel, note, velocity]"

definition controlChange :: "nat \<Rightarrow> nat \<Rightarrow> nat \<Rightarrow> frame" where
  "controlChange channel controller value = Uint8Array_of [ControlChange OR channel, controller, value]"

definition programChange :: "nat \<Rightarrow> nat \<Rightarrow> frame" where
  "programChange channel program = Uint8Array_of [ProgramChange OR channel, program]"

text \<open>
  \<^verbatim>\<open>universalNRTSysEx(deviceId, sid1, sid2?, data?)\<close> and
  \<^verbatim>\<open>universalRTSysEx(deviceId, sid1, sid2, data?)\<close>; an omitted optional argument is \<open>None\<close>.
  Both bodies start their array with the literal \<^verbatim>\<open>0x7e\<close>.
\<close>

definition universalNRTSysEx :: "nat \<Rightarrow> nat \<Rightarrow> nat option \<Rightarrow> nat list option \<Rightarrow> frame" where
  "universalNRTSysEx deviceId sid1 sid2 payload =
     (let message = [SystemExclusive, 0x7e, deviceId, sid1];
          message = (case sid2 of None \<Rightarrow> message | Some s \<Rightarrow> message @ [s]);
          message = (case payload of None \<Rightarrow> message | Some p \<Rightarrow> message @ p)
      in Uint8Array_of message)"

definition universalRTSysEx :: "nat \<Rightarrow> nat \<Rightarrow> nat \<Rightarrow> nat list option \<Rightarrow> frame" where
  "universalRTSysEx deviceId sid1 sid2 payload =
     (let message = [SystemExclusive, 0x7e, deviceId, sid1, sid2];
          message = (case payload of None \<Rightarrow> message | Some p \<Rightarrow> message @ p)
      in Uint8Array_of message)"

subsection \<open>Classification of the first byte\<close>

definition message_type :: "nat option \<Rightarrow> MIDIMessageType" where
  "message_type firstByte =
     (if firstByte = Some 0xf0 then SysEx
      else if bit_and firstByte 0xf0 = 0xf0 then System
      else Channel)"

definition message_status :: "nat option \<Rightarrow> nat" where
  "message_status firstByte =
     (if bit_and firstByte 0xf0 = 0xf0 then (case firstByte of Some b \<Rightarrow> b | None \<Rightarrow> 0)
      else bit_and firstByte 0xf0)"

subsection \<open>Wildcard system-exclusive match\<close>

text \<open>The manufacturer id argument is a number or an array (\<^verbatim>\<open>typeof id === "number"\<close>).\<close>

datatype sysex_id = IdNumber nat | IdArray "nat list"

text \<open>
  The header loop \<^verbatim>\<open>for (j = 0; j < header.length; ++j)\<close>, as a recursion over the header
  bytes not yet compared; \<open>p\<close> is the frame position \<^verbatim>\<open>i + j + 1\<close>.
\<close>

fun header_loop :: "frame \<Rightarrow> nat \<Rightarrow> nat list \<Rightarrow> bool" where
  "header_loop d p [] = True"
| "header_loop d p (h # hs) =
     (if h \<noteq> 0xff \<and> Some h \<noteq> byte_at d p then False else header_loop d (Suc p) hs)"

definition validate_tail :: "frame \<Rightarrow> nat \<Rightarrow> nat option \<Rightarrow> nat list option \<Rightarrow> bool" where
  "validate_tail d i deviceId header =
     (if deviceId \<noteq> None \<and> deviceId \<noteq> Some 0x7f \<and> byte_at d i \<noteq> deviceId then False
      else (case header of None \<Rightarrow> True | Some h \<Rightarrow> header_loop d (i + 1) h))"

definition validateSysEx :: "frame \<Rightarrow> sysex_id \<Rightarrow> nat option \<Rightarrow> nat list option \<Rightarrow> bool" where
  "validateSysEx d ident deviceId header =
     (if byte_at d 0 \<noteq> Some SystemExclusive then False
      else (case ident of
          IdNumber n \<Rightarrow>
            if byte_at d 1 \<noteq> Some n then False
            else validate_tail d 2 deviceId header
        | IdArray a \<Rightarrow>
            if byte_at d 1 \<noteq> byte_at a 0 \<or> byte_at d 2 \<noteq> byte_at a 1 \<or> byte_at d 3 \<noteq> byte_at a 2
            then False
            else validate_tail d 4 deviceId header))"

subsection \<open>Messages\<close>

record MIDIMessage =
  data :: frame
  time :: nat

text \<open>
  The constructor, for a \<^verbatim>\<open>Uint8Array\<close> argument. The static flag
  \<^verbatim>\<open>convertZeroVelToNoteOff\<close> and the clock \<^verbatim>\<open>Date.now()\<close> are parameters;
  \<^verbatim>\<open>time || Date.now()\<close> takes the clock when the time is omitted or 0.
\<close>

definition MIDIMessage_new :: "bool \<Rightarrow> nat \<Rightarrow> frame \<Rightarrow> nat option \<Rightarrow> MIDIMessage" where
  "MIDIMessage_new convertZeroVelToNoteOff now d t =
     (let tm = (case t of None \<Rightarrow> now | Some x \<Rightarrow> if x = 0 then now else x);
          d' = (if convertZeroVelToNoteOff
                   \<and> length d = 3 \<and> bit_and (byte_at d 0) 0xf0 = 0x90 \<and> byte_at d 2 = Some 0
                then d[0 := 0x80 OR bit_and (byte_at d 0) 0x0f]
                else d)
      in \<lparr>data = d', time = tm\<rparr>)"

definition makeNoteOn :: "bool \<Rightarrow> nat \<Rightarrow> nat \<Rightarrow> nat \<Rightarrow> nat \<Rightarrow> MIDIMessage" where
  "makeNoteOn flag now channel note velocity = MIDIMessage_new flag now (noteOn channel note velocity) None"

definition makeNoteOff :: "bool \<Rightarrow> nat \<Rightarrow> nat \<Rightarrow> nat \<Rightarrow> nat \<Rightarrow> MIDIMessage" where
  "makeNoteOff flag now channel note velocity = MIDIMessage_new flag now (noteOff channel note velocity) None"

definition makeControlChange :: "bool \<Rightarrow> nat \<Rightarrow> nat \<Rightarrow> nat \<Rightarrow> nat \<Rightarrow> MIDIMessage" where
  "makeControlChange flag now channel controller value =
     MIDIMessage_new flag now (controlChange channel controller value) None"

text \<open>The getters read the stored frame; none of them writes it.\<close>

definition get_type :: "MIDIMessage \<Rightarrow> MIDIMessageType" where
  "get_type m = message_type (byte_at (data m) 0)"

definition get_status :: "MIDIMessage \<Rightarrow> nat" where
  "get_status m = message_status (byte_at (data m) 0)"

definition get_channel :: "MIDIMessage \<Rightarrow> nat" where
  "get_channel m = bit_and (byte_at (data m) 0) 0x0f"

definition get_note :: "MIDIMessage \<Rightarrow> nat option" where
  "get_note m = byte_at (data m) 1"

definition get_velocity :: "MIDIMessage \<Rightarrow> nat option" where
  "get_velocity m = byte_at (data m) 2"

definition get_controller :: "MIDIMessage \<Rightarrow> nat option" where
  "get_controller m = byte_at (data m) 1"

definition get_value :: "MIDIMessage \<Rightarrow> nat option" where
  "get_value m = byte_at (data m) 2"

text \<open>
  \<^verbatim>\<open>data[2] * 0x80 + data[1] - 0x2000\<close>: with a byte missing the arithmetic yields
  \<^verbatim>\<open>NaN\<close>, modelled as \<open>None\<close>.
\<close>

definition get_pitchBend :: "MIDIMessage \<Rightarrow> int option" where
  "get_pitchBend m =
     (case (byte_at (data m) 2, byte_at (data m) 1) of
        (Some b2, Some b1) \<Rightarrow> Some (int b2 * 0x80 + int b1 - 0x2000)
      | _ \<Rightarrow> None)"

section \<open>Channel state (MIDIChannelState.ts)\<close>

text \<open>
  JavaScript arrays of numbers: an element is a number or \<^verbatim>\<open>undefined\<close> (\<open>None\<close>).
  A read past the end yields \<^verbatim>\<open>undefined\<close>; a write past the end extends the array, the
  skipped positions reading \<^verbatim>\<open>undefined\<close>; a write at the index \<^verbatim>\<open>undefined\<close> sets a
  property of that name and changes no indexed element.
\<close>

definition array_get :: "'a option list \<Rightarrow> nat \<Rightarrow> 'a option" where
  "array_get xs i = (if i < length xs then xs ! i else None)"

definition array_set :: "'a option list \<Rightarrow> nat option \<Rightarrow> 'a option \<Rightarrow> 'a option list" where
  "array_set xs i v =
     (case i of
        None \<Rightarrow> xs
      | Some k \<Rightarrow> if k < length xs then xs[k := v]
                  else xs @ replicate (k - length xs) None @ [v])"

record MIDIChannelState =
  channel :: int
  channelPressure :: "nat option"
  pitchBend :: "int option"
  activeNotes :: "MIDIMessage list list"
  heldNotes :: "MIDIMessage list"
  controller :: "nat option list"
  keyPressure :: "nat option list"

definition MIDIChannelState_new :: "int \<Rightarrow> MIDIChannelState" where
  "MIDIChannelState_new ch =
     \<lparr>channel = ch, channelPressure = Some 0, pitchBend = Some 0,
      activeNotes = replicate 128 [], heldNotes = [],
      controller = replicate 128 (Some 0), keyPressure = replicate 128 (Some 0)\<rparr>"

text \<open>\<^verbatim>\<open>this.controller[64] >= 64\<close>; the comparison with \<^verbatim>\<open>undefined\<close> is false.\<close>

definition holdOn :: "MIDIChannelState \<Rightarrow> bool" where
  "holdOn s = (case array_get (controller s) 64 of Some v \<Rightarrow> v \<ge> 64 | None \<Rightarrow> False)"

text \<open>
  \<^verbatim>\<open>this.activeNotes[b1].push(message)\<close> and \<^verbatim>\<open>this.activeNotes[b1].shift()\<close>: when
  \<^verbatim>\<open>activeNotes[b1]\<close> is \<^verbatim>\<open>undefined\<close> the method call throws a TypeError (\<open>None\<close>).
  \<^verbatim>\<open>shift\<close> on an empty array leaves it empty.
\<close>

definition push_note :: "MIDIMessage list list \<Rightarrow> nat option \<Rightarrow> MIDIMessage \<Rightarrow> MIDIMessage list list option" where
  "push_note a i m =
     (case i of
        None \<Rightarrow> None
      | Some k \<Rightarrow> if k < length a then Some (a[k := a ! k @ [m]]) else None)"

definition shift_note :: "MIDIMessage list list \<Rightarrow> nat option \<Rightarrow> MIDIMessage list list option" where
  "shift_note a i =
     (case i of
        None \<Rightarrow> None
      | Some k \<Rightarrow> if k < length a then Some (a[k := tl (a ! k)]) else None)"

text \<open>
  An update returns or throws; in both cases the object keeps the writes made so far. The
  result of the model is the outcome, the messages handed to the observers
  (\<^verbatim>\<open>this.onMessage\<close>, \<^verbatim>\<open>this.device.onMessage\<close>) in the order of the calls, and the state.
\<close>

datatype outcome = Returned | TypeError

text \<open>
  The loop over the held notes of the Control-Change case, as a recursion over the held
  messages not yet visited; \<open>out\<close> collects the messages handed to the observers.
\<close>

fun drain_held ::
  "MIDIMessage list \<Rightarrow> MIDIMessage list list \<Rightarrow> MIDIMessage list
    \<Rightarrow> outcome \<times> MIDIMessage list \<times> MIDIMessage list list" where
  "drain_held [] a out = (Returned, out, a)"
| "drain_held (heldNoteOff # rest) a out =
     (case shift_note a (get_note heldNoteOff) of
        None \<Rightarrow> (TypeError, out, a)
      | Some a' \<Rightarrow> drain_held rest a' (out @ [heldNoteOff]))"

definition update :: "MIDIChannelState \<Rightarrow> MIDIMessage \<Rightarrow> outcome \<times> MIDIMessage list \<times> MIDIChannelState" where
  "update s message =
     (let b1 = byte_at (data message) 1;
          b2 = byte_at (data message) 2;
          st = get_status message
      in if st = NoteOn then
           (case push_note (activeNotes s) b1 message of
              None \<Rightarrow> (TypeError, [], s)
            | Some a \<Rightarrow> (Returned, [message], s\<lparr>activeNotes := a\<rparr>))
         else if st = NoteOff then
           (if holdOn s then (Returned, [], s\<lparr>heldNotes := heldNotes s @ [message]\<rparr>)
            else (case shift_note (activeNotes s) b1 of
                    None \<Rightarrow> (TypeError, [], s)
                  | Some a \<Rightarrow> (Returned, [message], s\<lparr>activeNotes := a\<rparr>)))
         else if st = KeyPressure then
           (Returned, [message], s\<lparr>keyPressure := array_set (keyPressure s) b1 b2\<rparr>)
         else if st = ControlChange then
           (let s1 = s\<lparr>controller := array_set (controller s) (get_controller message) (get_value message)\<rparr>
            in if b1 = Some 64 \<and> (case b2 of Some v \<Rightarrow> v < 64 | None \<Rightarrow> False) then
                 (case drain_held (heldNotes s1) (activeNotes s1) [] of
                    (TypeError, out, a) \<Rightarrow> (TypeError, out, s1\<lparr>activeNotes := a\<rparr>)
                  | (Returned, out, a) \<Rightarrow>
                      (Returned, out @ [message], s1\<lparr>activeNotes := a, heldNotes := []\<rparr>))
               else (Returned, [message], s1))
         else if st = PitchBend then
           (Returned, [message], s\<lparr>pitchBend := get_pitchBend message\<rparr>)
         else if st = ChannelPressure then
           (Returned, [message], s\<lparr>channelPressure := b1\<rparr>)
         else (Returned, [message], s))"

text \<open>
  \<^verbatim>\<open>reset\<close> assigns the indices 0 to 127 of the three tables; elements beyond them, which
  only a write past the end can have created, stay.
\<close>

definition reset_table :: "'a \<Rightarrow> 'a list \<Rightarrow> 'a list" where
  "reset_table v xs = replicate 128 v @ drop 128 xs"

definition reset :: "MIDIChannelState \<Rightarrow> MIDIChannelState" where
  "reset s =
     s\<lparr>channelPressure := Some 0, pitchBend := Some 0, heldNotes := [],
       activeNotes := reset_table [] (activeNotes s),
       controller := reset_table (Some 0) (controller s),
       keyPressure := reset_table (Some 0) (keyPressure s)\<rparr>"

text \<open>
  A sequence of operations on one channel state, run as long as the operations return: the
  result is the outcome of the last operation run and the state it left.
\<close>

datatype channel_op = Update MIDIMessage | Reset

fun run_ops :: "MIDIChannelState \<Rightarrow> channel_op list \<Rightarrow> outcome \<times> MIDIChannelState" where
  "run_ops s [] = (Returned, s)"
| "run_ops s (Reset # ops) = run_ops (reset s) ops"
| "run_ops s (Update m # ops) =
     (case update s m of
        (Returned, out, s') \<Rightarrow> run_ops s' ops
      | (TypeError, out, s') \<Rightarrow> (TypeError, s'))"

text \<open>
  The condition under which no update throws: every note has its occurrence queue, and the
  note byte of every held message is below 128.
\<close>

definition notes_in_range :: "MIDIChannelState \<Rightarrow> bool" where
  "notes_in_range s \<longleftrightarrow> length (activeNotes s) = 128
     \<and> (\<forall>h \<in> set (heldNotes s). \<exists>k < 128. get_note h = Some k)"

text \<open>
  The message sequences of the sustain-pedal and of the retrigger scenario, on channel 0,
  with the messages made by the builders.
\<close>

definition pedal_sequence :: "bool \<Rightarrow> nat \<Rightarrow> channel_op list" where
  "pedal_sequence flag now =
     [Update (makeNoteOn flag now 0 60 100),
      Update (makeControlChange flag now 0 64 127),
      Update (makeNoteOff flag now 0 60 0),
      Update (makeControlChange flag now 0 64 0)]"

definition retrigger_sequence :: "bool \<Rightarrow> nat \<Rightarrow> channel_op list" where
  "retrigger_sequence flag now =
     [Update (makeNoteOn flag now 0 60 100),
      Update (makeNoteOn flag now 0 60 90),
      Update (makeNoteOff flag now 0 60 0)]"

definition state_of :: "outcome \<times> MIDIMessage list \<times> MIDIChannelState \<Rightarrow> MIDIChannelState" where
  "state_of r = snd (snd r)"

section \<open>Request/response exchange (MIDIDevice.ts, MIDIExchange)\<close>

text \<open>
  Of the device the exchange reads the two ids. The manufacturer id is a number or an
  array; the device id is a number.
\<close>

record MIDIDevice =
  manufacturerId :: sysex_id
  deviceId :: nat

record IRequiredResponse =
  req_id :: "sysex_id option"
  req_deviceId :: "nat option"
  req_header :: "nat list option"

text \<open>The optional field \<^verbatim>\<open>response?: IRequiredResponse | IRequiredResponse[]\<close>.\<close>

datatype response_field = Omitted | Single IRequiredResponse | Several "IRequiredResponse list"

record IExchangeEvent =
  request :: frame
  response :: response_field

datatype exchange_error =
  AlreadyRunning | AlreadyCompleted | NoExchangeEvents | NotAFunction | NoSuchEvent

datatype promise_state = NoPromise | Pending | Resolved | Rejected

text \<open>
  The private fields of the exchange, and what it does to its surroundings: the frames
  handed to \<^verbatim>\<open>output.send\<close>, the timers created by \<^verbatim>\<open>setTimeout\<close> and not cleared (a
  timer is named by its creation number), whether \<^verbatim>\<open>onMidiMessage\<close> is registered on the
  input, and the state of the promise whose callbacks \<^verbatim>\<open>_resolve\<close> and \<^verbatim>\<open>_reject\<close> hold.
  \<^verbatim>\<open>_requiredResponses\<close> is \<^verbatim>\<open>null\<close> or a set iterated in insertion order; the
  descriptors of one event are taken to be distinct objects.
\<close>

record MIDIExchange =
  device :: MIDIDevice
  isRunning :: bool
  isCompleted :: bool
  timeout :: nat
  handle :: "nat option"
  exchangeEvents :: "IExchangeEvent list"
  responses :: "frame list"
  eventIndex :: nat
  requiredResponses :: "IRequiredResponse list option"
  promise :: promise_state
  listening :: bool
  sent :: "frame list"
  liveTimers :: "nat list"
  timersCreated :: nat

text \<open>
  The constructor, for a device with an input and an output. The events are given as a
  list (none: the empty list); \<^verbatim>\<open>if (msTimeout)\<close> keeps the default for 0.
\<close>

definition MIDIExchange_new :: "MIDIDevice \<Rightarrow> IExchangeEvent list \<Rightarrow> nat option \<Rightarrow> MIDIExchange" where
  "MIDIExchange_new dev exchange msTimeout =
     \<lparr>device = dev, isRunning = False, isCompleted = False,
      timeout = (case msTimeout of None \<Rightarrow> 5000 | Some t \<Rightarrow> if t = 0 then 5000 else t),
      handle = None, exchangeEvents = exchange, responses = [], eventIndex = 0,
      requiredResponses = None, promise = NoPromise, listening = True,
      sent = [], liveTimers = [], timersCreated = 0\<rparr>"

definition startExchangeEvent :: "MIDIExchange \<Rightarrow> exchange_error option \<times> MIDIExchange" where
  "startExchangeEvent x =
     (if eventIndex x < length (exchangeEvents x) then
        (let event = exchangeEvents x ! eventIndex x;
             required = (case response event of
                           Omitted \<Rightarrow> None
                         | Single r \<Rightarrow> Some [r]
                         | Several rs \<Rightarrow> Some rs)
         in (None, x\<lparr>requiredResponses := required,
                      sent := sent x @ [request event],
                      handle := Some (timersCreated x),
                      liveTimers := liveTimers x @ [timersCreated x],
                      timersCreated := timersCreated x + 1\<rparr>))
      else (Some NoSuchEvent, x))"

text \<open>
  \<^verbatim>\<open>start\<close> is \<^verbatim>\<open>async\<close>: a throw rejects the promise it returns, which is the error
  of the result. The state is returned in both cases.
\<close>

definition start :: "MIDIExchange \<Rightarrow> exchange_error option \<times> MIDIExchange" where
  "start x =
     (if isRunning x then (Some AlreadyRunning, x)
      else if isCompleted x then (Some AlreadyCompleted, x)
      else (let x1 = x\<lparr>eventIndex := 0\<rparr>
            in if length (exchangeEvents x1) = 0 then (Some NoExchangeEvents, x1)
               else startExchangeEvent (x1\<lparr>promise := Pending\<rparr>)))"

text \<open>
  \<^verbatim>\<open>resolve\<close> removes the listener and calls \<^verbatim>\<open>this._resolve\<close>, which is \<^verbatim>\<open>null\<close> until
  \<^verbatim>\<open>start\<close> has stored it; a settled promise stays as it is.
\<close>

definition resolve :: "MIDIExchange \<Rightarrow> exchange_error option \<times> MIDIExchange" where
  "resolve x =
     (let x1 = x\<lparr>listening := False\<rparr>
      in case promise x1 of
           NoPromise \<Rightarrow> (Some NotAFunction, x1)
         | Pending \<Rightarrow> (None, x1\<lparr>promise := Resolved\<rparr>)
         | Resolved \<Rightarrow> (None, x1)
         | Rejected \<Rightarrow> (None, x1))"

text \<open>\<^verbatim>\<open>req.id || this.device.manufacturerId\<close>: the number 0 is falsy, an array never is.\<close>

definition effective_id :: "MIDIDevice \<Rightarrow> IRequiredResponse \<Rightarrow> sysex_id" where
  "effective_id dev req =
     (case req_id req of
        None \<Rightarrow> manufacturerId dev
      | Some (IdNumber n) \<Rightarrow> if n = 0 then manufacturerId dev else IdNumber n
      | Some (IdArray a) \<Rightarrow> IdArray a)"

text \<open>\<^verbatim>\<open>req.deviceId || this.device.deviceId\<close>.\<close>

definition effective_deviceId :: "MIDIDevice \<Rightarrow> IRequiredResponse \<Rightarrow> nat" where
  "effective_deviceId dev req =
     (case req_deviceId req of
        None \<Rightarrow> deviceId dev
      | Some n \<Rightarrow> if n = 0 then deviceId dev else n)"

text \<open>The test of the loop body of \<^verbatim>\<open>onMidiMessage\<close> for one descriptor.\<close>

definition descriptor_matches :: "MIDIDevice \<Rightarrow> frame \<Rightarrow> IRequiredResponse \<Rightarrow> bool" where
  "descriptor_matches dev d req =
     validateSysEx d (effective_id dev req) (Some (effective_deviceId dev req)) (req_header req)"

text \<open>
  The loop \<^verbatim>\<open>for (const req of required)\<close>: at the first descriptor that matches, the
  descriptor is deleted from the set and the loop ends. The result is the set that remains,
  or \<open>None\<close> when no descriptor matches.
\<close>

fun take_match :: "MIDIDevice \<Rightarrow> frame \<Rightarrow> IRequiredResponse list \<Rightarrow> IRequiredResponse list option" where
  "take_match dev d [] = None"
| "take_match dev d (req # rest) =
     (if descriptor_matches dev d req then Some rest
      else (case take_match dev d rest of None \<Rightarrow> None | Some remaining \<Rightarrow> Some (req # remaining)))"

definition onMidiMessage :: "MIDIExchange \<Rightarrow> frame \<Rightarrow> exchange_error option \<times> MIDIExchange" where
  "onMidiMessage x d =
     (let (x1, exchangeCompleted) =
            (case requiredResponses x of
               Some required \<Rightarrow>
                 (case take_match (device x) d required of
                    Some remaining \<Rightarrow>
                      (x\<lparr>responses := responses x @ [d], requiredResponses := Some remaining\<rparr>,
                       remaining = [])
                  | None \<Rightarrow> (x, required = []))
             | None \<Rightarrow> (x\<lparr>responses := responses x @ [d]\<rparr>, True))
      in if exchangeCompleted then
           (let x2 = x1\<lparr>liveTimers := (case handle x1 of
                                          None \<Rightarrow> liveTimers x1
                                        | Some h \<Rightarrow> removeAll h (liveTimers x1)),
                        handle := None,
                        eventIndex := eventIndex x1 + 1\<rparr>
            in if eventIndex x2 \<ge> length (exchangeEvents x2) then resolve x2
               else startExchangeEvent x2)
         else (None, x1))"

text \<open>
  A descriptor, an event and an exchange with every id field 0 and every device id field 0
  of a descriptor replaced by an omitted field. These are not part of the program; they
  state what "treated like an omitted field" means.
\<close>

definition omit_zero_fields :: "IRequiredResponse \<Rightarrow> IRequiredResponse" where
  "omit_zero_fields req =
     req\<lparr>req_id := (if req_id req = Some (IdNumber 0) then None else req_id req),
         req_deviceId := (if req_deviceId req = Some 0 then None else req_deviceId req)\<rparr>"

definition omit_zero_event :: "IExchangeEvent \<Rightarrow> IExchangeEvent" where
  "omit_zero_event ev =
     ev\<lparr>response := (case response ev of
                        Omitted \<Rightarrow> Omitted
                      | Single r \<Rightarrow> Single (omit_zero_fields r)
                      | Several rs \<Rightarrow> Several (map omit_zero_fields rs))\<rparr>"

definition omit_zero_exchange :: "MIDIExchange \<Rightarrow> MIDIExchange" where
  "omit_zero_exchange x =
     x\<lparr>exchangeEvents := map omit_zero_event (exchangeEvents x),
       requiredResponses := map_option (map omit_zero_fields) (requiredResponses x)\<rparr>"

text \<open>
  A device, two exchange events that accept any frame, and the exchange built from them.
\<close>

definition example_device :: MIDIDevice where
  "example_device = \<lparr>manufacturerId = IdNumber 0x43, deviceId = 0x10\<rparr>"

definition identity_request :: IExchangeEvent where
  "identity_request = \<lparr>request = universalNRTSysEx 0x10 0x06 (Some 0x01) None, response = Omitted\<rparr>"

definition second_request :: IExchangeEvent where
  "second_request = \<lparr>request = [0xF0, 0x43, 0x20, 0xF7], response = Omitted\<rparr>"

definition example_exchange :: MIDIExchange where
  "example_exchange = MIDIExchange_new example_device [identity_request, second_request] None"

section \<open>Properties of the codec\<close>

lemmas MIDIStatus_defs =
  NoteOff_def NoteOn_def KeyPressure_def ControlChange_def ProgramChange_def
  ChannelPressure_def PitchBend_def SystemExclusive_def

lemma nibble_cases:
  "ch < 16 \<Longrightarrow> ch \<in> {0, 1, 2, 3, 4, 5, 6, 7, 8, 9, 10, 11, 12, 13, 14, 15 :: nat}"
  by (simp only: insert_iff empty_iff) arith

lemma nibble_bits:
  assumes "ch < 16"
  shows "(144 OR ch) AND 240 = (144 :: nat)" and "(144 OR ch) AND 15 = ch"
    and "(128 OR ch) AND 240 = (128 :: nat)" and "(128 OR ch) AND 15 = ch"
    and "144 OR ch < 256" and "144 OR ch \<noteq> 240" and "128 OR ch \<noteq> 240"
proof -
  have c: "ch \<in> {0, 1, 2, 3, 4, 5, 6, 7, 8, 9, 10, 11, 12, 13, 14, 15}"
    using assms by (rule nibble_cases)
  from c show "(144 OR ch) AND 240 = (144 :: nat)" by (elim insertE; simp)
  from c show "(144 OR ch) AND 15 = ch" by (elim insertE; simp)
  from c show "(128 OR ch) AND 240 = (128 :: nat)" by (elim insertE; simp)
  from c show "(128 OR ch) AND 15 = ch" by (elim insertE; simp)
  from c show "144 OR ch < 256" by (elim insertE; simp)
  from c show "144 OR ch \<noteq> 240" by (elim insertE; simp)
  from c show "128 OR ch \<noteq> 240" by (elim insertE; simp)
qed

lemma nibble_or_plus:
  assumes "ch < (16 :: nat)"
  shows "128 OR ch = 128 + ch"
proof -
  have "ch \<in> {0, 1, 2, 3, 4, 5, 6, 7, 8, 9, 10, 11, 12, 13, 14, 15}"
    using assms by (rule nibble_cases)
  then show ?thesis by (elim insertE; simp)
qed

lemma and_15_mod: "(d :: nat) AND 15 = d mod 16"
  using take_bit_eq_mask [of 4 d] by (simp add: take_bit_eq_mod mask_eq_exp_minus_1)

lemma noteOn_nibble_range:
  assumes "b AND 240 = (144 :: nat)" and "b < 256"
  shows "144 \<le> b \<and> b \<le> 159"
proof -
  have "drop_bit 4 b AND drop_bit 4 (240 :: nat) = drop_bit 4 (144 :: nat)"
    using assms(1) by (simp only: drop_bit_and [symmetric])
  moreover have "drop_bit 4 (240 :: nat) = 15" and "drop_bit 4 (144 :: nat) = 9"
    by (simp_all add: drop_bit_eq_div)
  ultimately have "drop_bit 4 b AND 15 = (9 :: nat)" by simp
  then have "(b div 16) mod 16 = 9" by (simp add: and_15_mod drop_bit_eq_div)
  moreover have "b div 16 < 16" using assms(2) by simp
  ultimately have "b div 16 = 9" by simp
  then show ?thesis by arith
qed

lemma noteOn_range_nibble:
  assumes "144 \<le> b" and "b \<le> (159 :: nat)"
  shows "b AND 240 = 144" and "b AND 15 < 16" and "b AND 15 = b - 144"
proof -
  have c: "b \<in> {144, 145, 146, 147, 148, 149, 150, 151, 152, 153, 154, 155, 156, 157, 158, 159}"
    using assms by (simp only: insert_iff empty_iff) arith
  from c show "b AND 240 = 144" by (elim insertE; simp)
  from c show "b AND 15 < 16" by (elim insertE; simp)
  from c show "b AND 15 = b - 144" by (elim insertE; simp)
qed

lemma byte_at_simps [simp]:
  "byte_at (x # xs) 0 = Some x"
  "byte_at (x # xs) (Suc n) = byte_at xs n"
  "byte_at [] n = None"
  by (simp_all add: byte_at_def)

lemma byte_at_numeral [simp]:
  "byte_at (x # xs) (numeral k) = byte_at xs (pred_numeral k)"
  by (simp add: byte_at_def numeral_eq_Suc)

lemma MIDIMessage_new_byte:
  "0 < k \<Longrightarrow> byte_at (data (MIDIMessage_new flag now d t)) k = byte_at d k"
  by (simp add: MIDIMessage_new_def byte_at_def Let_def)

lemma get_pitchBend_new:
  "get_pitchBend (MIDIMessage_new flag now d t) = get_pitchBend \<lparr>data = d, time = 0\<rparr>"
  by (simp add: get_pitchBend_def MIDIMessage_new_byte)

subsection \<open>Pitch bend\<close>

text \<open>
  Claim C6. For a frame that has the bytes 1 and 2, the pitch-bend getter returns
  byte2 * 128 + byte1 - 8192; when both are 7-bit data bytes the value lies between -8192
  and 8191; and for every \<open>v\<close> in that range the frame whose byte 1 is (v + 8192) mod 128
  and whose byte 2 is (v + 8192) div 128, both 7-bit, made into a message by the constructor
  (whatever the first byte, the conversion flag and the time), decodes to \<open>v\<close>. For a frame
  of fewer than 3 bytes the same arithmetic on a missing byte yields \<^verbatim>\<open>NaN\<close>.
\<close>

theorem pitchBend_decodes:
  "(data m = b0 # b1 # b2 # rest \<longrightarrow> get_pitchBend m = Some (int b2 * 128 + int b1 - 8192))
   \<and> (data m = b0 # b1 # b2 # rest \<and> b1 < 128 \<and> b2 < 128 \<longrightarrow>
        (\<exists>v. get_pitchBend m = Some v \<and> -8192 \<le> v \<and> v \<le> 8191))
   \<and> (-8192 \<le> v \<and> v \<le> 8191 \<longrightarrow>
        nat ((v + 8192) mod 128) < 128 \<and> nat ((v + 8192) div 128) < 128 \<and>
        get_pitchBend (MIDIMessage_new flag now
            [c0, nat ((v + 8192) mod 128), nat ((v + 8192) div 128)] t) = Some v)
   \<and> (length (data m) < 3 \<longrightarrow> get_pitchBend m = None)"
proof (intro conjI impI)
  assume "length (data m) < 3"
  then show "get_pitchBend m = None"
    by (simp add: get_pitchBend_def byte_at_def)
next
  assume "data m = b0 # b1 # b2 # rest"
  then show "get_pitchBend m = Some (int b2 * 128 + int b1 - 8192)"
    by (simp add: get_pitchBend_def)
next
  assume a: "data m = b0 # b1 # b2 # rest \<and> b1 < 128 \<and> b2 < 128"
  then have "get_pitchBend m = Some (int b2 * 128 + int b1 - 8192)"
    by (simp add: get_pitchBend_def)
  moreover have "-8192 \<le> int b2 * 128 + int b1 - 8192" by simp
  moreover have "int b2 * 128 + int b1 - 8192 \<le> 8191" using a by simp
  ultimately show "\<exists>v. get_pitchBend m = Some v \<and> -8192 \<le> v \<and> v \<le> 8191" by blast
next
  assume r: "-8192 \<le> v \<and> v \<le> 8191"
  show "nat ((v + 8192) mod 128) < 128" by simp
  show "nat ((v + 8192) div 128) < 128" using r by arith
  have nn: "0 \<le> (v + 8192) div 128" using r by arith
  define lsb where "lsb = nat ((v + 8192) mod 128)"
  define msb where "msb = nat ((v + 8192) div 128)"
  have "int msb * 128 + int lsb - 8192 = v"
    using nn by (simp add: lsb_def msb_def)
  then have "get_pitchBend \<lparr>data = [c0, lsb, msb], time = 0\<rparr> = Some v"
    by (simp add: get_pitchBend_def)
  then show "get_pitchBend (MIDIMessage_new flag now
            [c0, nat ((v + 8192) mod 128), nat ((v + 8192) div 128)] t) = Some v"
    unfolding lsb_def msb_def by (simp only: get_pitchBend_new)
qed

theorem pitchBend_decodes_witness:
  "get_pitchBend \<lparr>data = [0xE3, 0x7F, 0x7F], time = 0\<rparr> = Some 8191
   \<and> get_pitchBend (MIDIMessage_new True 5
        [0xE0, nat ((-8192 + 8192) mod 128), nat ((-8192 + 8192) div 128)] None) = Some (-8192)
   \<and> get_pitchBend \<lparr>data = [0xE3, 0x7F], time = 0\<rparr> = None"
  using pitchBend_decodes [of "\<lparr>data = [0xE3, 0x7F, 0x7F], time = 0\<rparr>" "0xE3" "0x7F" "0x7F" "[]"
      "-8192" True 5 "0xE0" None]
    pitchBend_decodes [of "\<lparr>data = [0xE3, 0x7F], time = 0\<rparr>" "0xE3" "0x7F" "0x7F" "[]"
      "-8192" True 5 "0xE0" None]
  by simp

subsection \<open>Note-On round trip\<close>

lemma noteOn_frame: "ch < 16 \<Longrightarrow> n < 128 \<Longrightarrow> vel < 128 \<Longrightarrow> noteOn ch n vel = [144 OR ch, n, vel]"
  using nibble_bits(5) [of ch] by (simp add: noteOn_def Uint8Array_of_def NoteOn_def)

text \<open>
  Claim C7. For every channel below 16, note below 128 and velocity below 128, the message
  constructed from the frame of the Note-On builder has type Channel, that channel, that
  note and that velocity, with the conversion flag off or on and also for velocity 0. Its
  status is Note-On, except that with the flag on and velocity 0 it is Note-Off.
\<close>

theorem noteOn_roundtrip:
  assumes "ch < 16" and "n < 128" and "vel < 128"
  shows "get_type (MIDIMessage_new flag now (noteOn ch n vel) t) = Channel
       \<and> get_channel (MIDIMessage_new flag now (noteOn ch n vel) t) = ch
       \<and> get_note (MIDIMessage_new flag now (noteOn ch n vel) t) = Some n
       \<and> get_velocity (MIDIMessage_new flag now (noteOn ch n vel) t) = Some vel
       \<and> get_status (MIDIMessage_new flag now (noteOn ch n vel) t)
           = (if flag \<and> vel = 0 then NoteOff else NoteOn)"
proof -
  have f: "noteOn ch n vel = [144 OR ch, n, vel]" using assms by (rule noteOn_frame)
  note nb = nibble_bits [OF assms(1)]
  show ?thesis
  proof (cases "flag \<and> vel = 0")
    case True
    then have "data (MIDIMessage_new flag now [144 OR ch, n, vel] t) = [128 OR ch, n, vel]"
      by (simp add: MIDIMessage_new_def Let_def bit_and_def nb)
    then show ?thesis unfolding f using True
      by (simp add: get_type_def get_channel_def get_note_def get_velocity_def get_status_def
          message_type_def message_status_def bit_and_def nb NoteOff_def)
  next
    case False
    then have "data (MIDIMessage_new flag now [144 OR ch, n, vel] t) = [144 OR ch, n, vel]"
      by (auto simp add: MIDIMessage_new_def Let_def bit_and_def nb)
    then show ?thesis unfolding f using False
      by (auto simp add: get_type_def get_channel_def get_note_def get_velocity_def get_status_def
          message_type_def message_status_def bit_and_def nb NoteOn_def)
  qed
qed

theorem noteOn_roundtrip_witness:
  "get_type (MIDIMessage_new True 7 (noteOn 3 60 0) None) = Channel
       \<and> get_channel (MIDIMessage_new True 7 (noteOn 3 60 0) None) = 3
       \<and> get_note (MIDIMessage_new True 7 (noteOn 3 60 0) None) = Some 60
       \<and> get_velocity (MIDIMessage_new True 7 (noteOn 3 60 0) None) = Some 0
       \<and> get_status (MIDIMessage_new True 7 (noteOn 3 60 0) None) = NoteOff"
  using noteOn_roundtrip [of 3 60 0 True 7 None] by simp


subsection \<open>Zero-velocity conversion\<close>

lemma noteOn_range_rewrite:
  assumes "144 \<le> b" and "b \<le> (159 :: nat)"
  shows "128 OR (b AND 15) = b - 16"
proof -
  note nr = noteOn_range_nibble [OF assms]
  have "128 OR (b AND 15) = 128 + (b AND 15)" using nr(2) by (rule nibble_or_plus)
  then show ?thesis using assms by (simp add: nr(3))
qed

lemma MIDIMessage_new_off [simp]: "data (MIDIMessage_new False now d t) = d"
  by (simp add: MIDIMessage_new_def Let_def)

lemma rewritten_status_nibble: "(128 OR (b AND 15)) AND 240 = (128 :: nat)"
proof -
  have "b AND 15 < 16" by (simp add: and_15_mod)
  then show ?thesis by (rule nibble_bits(3))
qed

lemma MIDIMessage_new_once:
  "data (MIDIMessage_new flag now' (data (MIDIMessage_new flag now d t)) t')
     = data (MIDIMessage_new flag now d t)"
proof (cases "flag \<and> length d = 3 \<and> bit_and (byte_at d 0) 0xf0 = 0x90 \<and> byte_at d 2 = Some 0")
  case True
  then obtain b0 b1 where d: "d = [b0, b1, 0]"
    by (cases d; cases "tl d"; cases "tl (tl d)"; auto)
  have "data (MIDIMessage_new flag now d t) = [128 OR (b0 AND 15), b1, 0]"
    using True by (simp add: d MIDIMessage_new_def Let_def bit_and_def)
  then show ?thesis
    by (simp add: MIDIMessage_new_def Let_def bit_and_def rewritten_status_nibble)
next
  case False
  then have "data (MIDIMessage_new flag now d t) = d"
    by (auto simp add: MIDIMessage_new_def Let_def)
  then show ?thesis using False
    by (auto simp add: MIDIMessage_new_def Let_def)
qed

text \<open>
  Claim C8. With the conversion flag on, the message constructed from a frame of 3 bytes
  whose first byte is between 0x90 and 0x9F and whose third byte is 0 has the status
  Note-Off and the channel of the frame: only the first byte is rewritten, 0x9c to 0x8c.
  Every other frame of bytes is stored as it is. The rewrite is the constructor's: a
  second construction from the stored frame changes nothing, and the same frame stored
  with the flag off reads as Note-On.
\<close>

theorem zero_velocity_conversion:
  "(length d = 3 \<and> 0x90 \<le> d ! 0 \<and> d ! 0 \<le> 0x9F \<and> d ! 2 = 0 \<longrightarrow>
       get_status (MIDIMessage_new True now d t) = NoteOff
     \<and> get_channel (MIDIMessage_new True now d t) = get_channel \<lparr>data = d, time = now\<rparr>
     \<and> data (MIDIMessage_new True now d t) = (d ! 0 - 16) # tl d
     \<and> get_status (MIDIMessage_new False now d t) = NoteOn)
   \<and> ((\<forall>b \<in> set d. b < 256) \<and> \<not> (length d = 3 \<and> 0x90 \<le> d ! 0 \<and> d ! 0 \<le> 0x9F \<and> d ! 2 = 0) \<longrightarrow>
       data (MIDIMessage_new True now d t) = d)
   \<and> data (MIDIMessage_new True now' (data (MIDIMessage_new True now d t)) t')
       = data (MIDIMessage_new True now d t)"
proof (intro conjI impI)
  assume a: "length d = 3 \<and> 0x90 \<le> d ! 0 \<and> d ! 0 \<le> 0x9F \<and> d ! 2 = 0"
  then obtain b0 b1 where d: "d = [b0, b1, 0]"
    by (cases d; cases "tl d"; cases "tl (tl d)"; auto)
  have r: "144 \<le> b0" "b0 \<le> 159" using a by (simp_all add: d)
  note nr = noteOn_range_nibble [OF r]
  have new: "data (MIDIMessage_new True now [b0, b1, 0] t) = [b0 - 16, b1, 0]"
    by (simp add: MIDIMessage_new_def Let_def bit_and_def nr(1) noteOn_range_rewrite [OF r])
  have lo: "(b0 - 16) AND 240 = 128" "(b0 - 16) AND 15 = b0 AND 15"
    using rewritten_status_nibble [of b0] nibble_bits(4) [OF nr(2)]
    by (simp_all add: noteOn_range_rewrite [OF r])
  show "get_status (MIDIMessage_new True now d t) = NoteOff"
    unfolding d by (simp add: get_status_def new message_status_def bit_and_def lo NoteOff_def)
  show "get_channel (MIDIMessage_new True now d t) = get_channel \<lparr>data = d, time = now\<rparr>"
    unfolding d by (simp add: get_channel_def new bit_and_def lo)
  show "data (MIDIMessage_new True now d t) = (d ! 0 - 16) # tl d"
    unfolding d by (simp add: new)
  show "get_status (MIDIMessage_new False now d t) = NoteOn"
    unfolding d by (simp add: get_status_def message_status_def bit_and_def nr(1) NoteOn_def)
next
  assume a: "(\<forall>b \<in> set d. b < 256) \<and> \<not> (length d = 3 \<and> 0x90 \<le> d ! 0 \<and> d ! 0 \<le> 0x9F \<and> d ! 2 = 0)"
  show "data (MIDIMessage_new True now d t) = d"
  proof (cases "length d = 3 \<and> bit_and (byte_at d 0) 0xf0 = 0x90 \<and> byte_at d 2 = Some 0")
    case True
    then obtain b0 b1 where d: "d = [b0, b1, 0]"
      by (cases d; cases "tl d"; cases "tl (tl d)"; auto)
    have "b0 AND 240 = 144" using True by (simp add: d bit_and_def)
    moreover have "b0 < 256" using a by (simp add: d)
    ultimately have "144 \<le> b0 \<and> b0 \<le> 159" by (rule noteOn_nibble_range)
    then show ?thesis using a by (simp add: d)
  next
    case False
    then show ?thesis by (auto simp add: MIDIMessage_new_def Let_def)
  qed
next
  show "data (MIDIMessage_new True now' (data (MIDIMessage_new True now d t)) t')
       = data (MIDIMessage_new True now d t)"
    by (rule MIDIMessage_new_once)
qed

theorem zero_velocity_conversion_witness:
  "get_status (MIDIMessage_new True 9 [0x93, 60, 0] None) = NoteOff
   \<and> data (MIDIMessage_new True 9 [0x93, 60, 0] None) = [0x83, 60, 0]
   \<and> data (MIDIMessage_new True 9 [0x93, 60, 5] None) = [0x93, 60, 5]"
  using zero_velocity_conversion [of "[0x93, 60, 0]" 9 None 9 None]
    zero_velocity_conversion [of "[0x93, 60, 5]" 9 None 9 None]
  by simp

subsection \<open>Universal system-exclusive builders\<close>

text \<open>
  Claim C9 says that the universal realtime builder returns a frame beginning 0xF0, 0x7F.
  The second byte of every frame of \<^const>\<open>universalRTSysEx\<close> is 0x7E, the
  non-realtime id, as in \<^const>\<open>universalNRTSysEx\<close>: the frame is 0xF0, 0x7E, the
  device id, the two sub-ids and the payload, each as a byte; for device 0x10, sub-ids 0x04
  and 0x01 and payload 0x02, 0x03 it is 0xF0, 0x7E, 0x10, 0x04, 0x01, 0x02, 0x03. The
  non-realtime builder returns 0xF0, 0x7E, the device id, the first sub-id, then the second
  sub-id and the payload when given.
\<close>

theorem universalRTSysEx_status_byte:
  "byte_at (universalRTSysEx dv sid1 sid2 payload) 1 = Some 0x7E
   \<and> universalRTSysEx dv sid1 sid2 payload
        = [0xF0, 0x7E, dv mod 256, sid1 mod 256, sid2 mod 256]
          @ (case payload of None \<Rightarrow> [] | Some p \<Rightarrow> Uint8Array_of p)
   \<and> universalNRTSysEx dv sid1 sid2' payload
        = [0xF0, 0x7E, dv mod 256, sid1 mod 256]
          @ (case sid2' of None \<Rightarrow> [] | Some s \<Rightarrow> [s mod 256])
          @ (case payload of None \<Rightarrow> [] | Some p \<Rightarrow> Uint8Array_of p)
   \<and> universalRTSysEx 0x10 0x04 0x01 (Some [0x02, 0x03]) = [0xF0, 0x7E, 0x10, 0x04, 0x01, 0x02, 0x03]
   \<and> universalNRTSysEx 0x10 0x06 (Some 0x01) None = [0xF0, 0x7E, 0x10, 0x06, 0x01]"
  by (cases payload; cases sid2')
    (simp_all add: universalRTSysEx_def universalNRTSysEx_def Uint8Array_of_def SystemExclusive_def)

subsection \<open>Wildcard match\<close>

lemma header_loop_iff:
  "header_loop d p h \<longleftrightarrow> (\<forall>j < length h. h ! j \<noteq> 0xff \<longrightarrow> byte_at d (p + j) = Some (h ! j))"
proof (induction h arbitrary: p)
  case Nil
  then show ?case by simp
next
  case (Cons x xs)
  have "(\<forall>j < length (x # xs). (x # xs) ! j \<noteq> 0xff \<longrightarrow> byte_at d (p + j) = Some ((x # xs) ! j))
      \<longleftrightarrow> (x \<noteq> 0xff \<longrightarrow> byte_at d p = Some x)
          \<and> (\<forall>j < length xs. xs ! j \<noteq> 0xff \<longrightarrow> byte_at d (Suc p + j) = Some (xs ! j))"
    by (simp add: All_less_Suc2)
  then show ?case using Cons.IH [of "Suc p"] by auto
qed

text \<open>
  Claim C5. For an id that is a number or an array of 3 elements, \<^const>\<open>validateSysEx\<close>
  returns true if and only if byte 0 of the frame is 0xF0; the id matches (byte 1 for a
  number, bytes 1 to 3 for an array); the byte after the id (position 2, or 4 for an array)
  equals the device id whenever one is supplied and is not 0x7f; and every byte \<open>j\<close> of a
  supplied header that is not 0xff equals the frame byte \<open>j\<close> places after the device-id
  position plus one. With id 0x43 and device id 0x7f it accepts the frames beginning
  0xF0, 0x43, 0x10 and 0xF0, 0x43, 0x7F; with device id 0x10 it rejects those beginning
  0xF0, 0x43, 0x20.
\<close>

theorem validateSysEx_iff:
  assumes "case ident of IdNumber n \<Rightarrow> True | IdArray a \<Rightarrow> length a = 3"
  shows "(validateSysEx d ident dv header \<longleftrightarrow>
        byte_at d 0 = Some 0xF0
      \<and> (case ident of
            IdNumber n \<Rightarrow> byte_at d 1 = Some n
          | IdArray a \<Rightarrow> byte_at d 1 = Some (a ! 0) \<and> byte_at d 2 = Some (a ! 1) \<and> byte_at d 3 = Some (a ! 2))
      \<and> (\<forall>x. dv = Some x \<and> x \<noteq> 0x7f \<longrightarrow>
            byte_at d (case ident of IdNumber n \<Rightarrow> 2 | IdArray a \<Rightarrow> 4) = Some x)
      \<and> (\<forall>h j. header = Some h \<and> j < length h \<and> h ! j \<noteq> 0xff \<longrightarrow>
            byte_at d ((case ident of IdNumber n \<Rightarrow> 2 | IdArray a \<Rightarrow> 4) + 1 + j) = Some (h ! j)))
    \<and> validateSysEx ([0xF0, 0x43, 0x10] @ rest) (IdNumber 0x43) (Some 0x7f) None
    \<and> validateSysEx ([0xF0, 0x43, 0x7F] @ rest) (IdNumber 0x43) (Some 0x7f) None
    \<and> \<not> validateSysEx ([0xF0, 0x43, 0x20] @ rest) (IdNumber 0x43) (Some 0x10) None"
proof (intro conjI)
  have tail: "validate_tail d i dv header \<longleftrightarrow>
      (\<forall>x. dv = Some x \<and> x \<noteq> 0x7f \<longrightarrow> byte_at d i = Some x)
      \<and> (\<forall>h j. header = Some h \<and> j < length h \<and> h ! j \<noteq> 0xff \<longrightarrow> byte_at d (i + 1 + j) = Some (h ! j))"
    for i
    by (cases dv; cases header) (auto simp add: validate_tail_def header_loop_iff)
  show "validateSysEx d ident dv header \<longleftrightarrow>
        byte_at d 0 = Some 0xF0
      \<and> (case ident of
            IdNumber n \<Rightarrow> byte_at d 1 = Some n
          | IdArray a \<Rightarrow> byte_at d 1 = Some (a ! 0) \<and> byte_at d 2 = Some (a ! 1) \<and> byte_at d 3 = Some (a ! 2))
      \<and> (\<forall>x. dv = Some x \<and> x \<noteq> 0x7f \<longrightarrow>
            byte_at d (case ident of IdNumber n \<Rightarrow> 2 | IdArray a \<Rightarrow> 4) = Some x)
      \<and> (\<forall>h j. header = Some h \<and> j < length h \<and> h ! j \<noteq> 0xff \<longrightarrow>
            byte_at d ((case ident of IdNumber n \<Rightarrow> 2 | IdArray a \<Rightarrow> 4) + 1 + j) = Some (h ! j))"
  proof (cases ident)
    case (IdNumber n)
    then show ?thesis
      by (simp only: validateSysEx_def tail sysex_id.case SystemExclusive_def) auto
  next
    case (IdArray a)
    then have "length a = 3" using assms by simp
    then have ids: "byte_at a 0 = Some (a ! 0)" "byte_at a 1 = Some (a ! 1)" "byte_at a 2 = Some (a ! 2)"
      by (simp_all add: byte_at_def)
    show ?thesis unfolding IdArray
      by (simp only: validateSysEx_def tail sysex_id.case SystemExclusive_def ids) auto
  qed
next
  show "validateSysEx ([0xF0, 0x43, 0x10] @ rest) (IdNumber 0x43) (Some 0x7f) None"
    by (simp add: validateSysEx_def validate_tail_def SystemExclusive_def)
  show "validateSysEx ([0xF0, 0x43, 0x7F] @ rest) (IdNumber 0x43) (Some 0x7f) None"
    by (simp add: validateSysEx_def validate_tail_def SystemExclusive_def)
  show "\<not> validateSysEx ([0xF0, 0x43, 0x20] @ rest) (IdNumber 0x43) (Some 0x10) None"
    by (simp add: validateSysEx_def validate_tail_def SystemExclusive_def)
qed

theorem validateSysEx_iff_witness:
  "validateSysEx [0xF0, 0x00, 0x20, 0x33, 0x05, 0x7E, 0x01, 0x06] (IdArray [0x00, 0x20, 0x33])
     (Some 0x05) (Some [0x7E, 0xFF, 0x06])"
proof -
  have hd: "\<forall>h j. Some [0x7E, 0xFF, 0x06] = Some h \<and> j < length h \<and> h ! j \<noteq> 0xff \<longrightarrow>
      byte_at [0xF0, 0x00, 0x20, 0x33, 0x05, 0x7E, 0x01, 0x06] (4 + 1 + j) = Some (h ! j)"
  proof (intro allI impI)
    fix h :: "nat list" and j :: nat
    assume a: "Some [0x7E, 0xFF, 0x06] = Some h \<and> j < length h \<and> h ! j \<noteq> 0xff"
    then have h: "h = [0x7E, 0xFF, 0x06]" by simp
    with a have "j = 0 \<or> j = 1 \<or> j = 2" by auto
    then show "byte_at [0xF0, 0x00, 0x20, 0x33, 0x05, 0x7E, 0x01, 0x06] (4 + 1 + j) = Some (h ! j)"
      using a by (auto simp add: h)
  qed
  have shape: "case IdArray [0x00, 0x20, 0x33] of IdNumber n \<Rightarrow> True | IdArray a \<Rightarrow> length a = 3"
    by simp
  show ?thesis
    using validateSysEx_iff [OF shape, of "[0xF0, 0x00, 0x20, 0x33, 0x05, 0x7E, 0x01, 0x06]"
        "Some 0x05" "Some [0x7E, 0xFF, 0x06]" "[]"] hd
    by simp
qed


section \<open>Properties of the channel state\<close>

subsection \<open>Single updates\<close>

lemma state_of_simp [simp]: "state_of (r, out, s) = s"
  by (simp add: state_of_def)

lemma update_NoteOn:
  assumes "get_status m = NoteOn" and "get_note m = Some n" and "n < length (activeNotes s)"
  shows "update s m = (Returned, [m], s\<lparr>activeNotes := (activeNotes s)[n := activeNotes s ! n @ [m]]\<rparr>)"
  using assms by (simp add: update_def Let_def push_note_def get_note_def)

lemma update_NoteOff_held:
  assumes "get_status m = NoteOff" and "holdOn s"
  shows "update s m = (Returned, [], s\<lparr>heldNotes := heldNotes s @ [m]\<rparr>)"
  using assms by (simp add: update_def Let_def MIDIStatus_defs)

lemma update_NoteOff_free:
  assumes "get_status m = NoteOff" and "\<not> holdOn s" and "get_note m = Some n"
    and "n < length (activeNotes s)"
  shows "update s m = (Returned, [m], s\<lparr>activeNotes := (activeNotes s)[n := tl (activeNotes s ! n)]\<rparr>)"
  using assms by (simp add: update_def Let_def shift_note_def get_note_def MIDIStatus_defs)

lemma drain_held_in_range:
  assumes "\<forall>h \<in> set hs. \<exists>k < length a. get_note h = Some k"
  shows "\<exists>a'. drain_held hs a out = (Returned, out @ hs, a') \<and> length a' = length a
     \<and> (\<forall>k < length a. a' ! k = drop (length (filter (\<lambda>h. get_note h = Some k) hs)) (a ! k))"
  using assms
proof (induction hs arbitrary: a out)
  case Nil
  then show ?case by simp
next
  case (Cons h hs)
  from Cons.prems obtain n where n: "n < length a" "get_note h = Some n" by auto
  define a1 where "a1 = a[n := tl (a ! n)]"
  have sh: "shift_note a (get_note h) = Some a1"
    using n by (simp add: shift_note_def a1_def)
  have len: "length a1 = length a" by (simp add: a1_def)
  have "\<forall>h \<in> set hs. \<exists>k < length a1. get_note h = Some k"
    using Cons.prems by (simp add: len)
  from Cons.IH [OF this, of "out @ [h]"] obtain a' where
    d: "drain_held hs a1 (out @ [h]) = (Returned, (out @ [h]) @ hs, a')"
    and l: "length a' = length a1"
    and q: "\<forall>k < length a1. a' ! k = drop (length (filter (\<lambda>h. get_note h = Some k) hs)) (a1 ! k)"
    by blast
  have "drain_held (h # hs) a out = (Returned, out @ h # hs, a')"
    using sh d by simp
  moreover have "length a' = length a" using l len by simp
  moreover have "\<forall>k < length a. a' ! k = drop (length (filter (\<lambda>x. get_note x = Some k) (h # hs))) (a ! k)"
  proof (intro allI impI)
    fix k assume k: "k < length a"
    then have e: "a' ! k = drop (length (filter (\<lambda>h. get_note h = Some k) hs)) (a1 ! k)"
      using q len by simp
    show "a' ! k = drop (length (filter (\<lambda>x. get_note x = Some k) (h # hs))) (a ! k)"
    proof (cases "k = n")
      case True
      then show ?thesis using e n k by (simp add: a1_def drop_Suc)
    next
      case False
      then show ?thesis using e n k by (simp add: a1_def)
    qed
  qed
  ultimately show ?case by blast
qed

lemma array_get_set_same: "array_get (array_set xs (Some k) v) k = v"
  by (simp add: array_get_def array_set_def nth_append)

lemma array_get_set_other: "j \<noteq> k \<Longrightarrow> array_get (array_set xs (Some k) v) j = array_get xs j"
  by (auto simp add: array_get_def array_set_def nth_append)

lemma update_ControlChange_plain:
  assumes "get_status m = ControlChange"
    and "\<not> (get_controller m = Some 64 \<and> (\<exists>v. get_value m = Some v \<and> v < 64))"
  shows "update s m = (Returned, [m],
      s\<lparr>controller := array_set (controller s) (get_controller m) (get_value m)\<rparr>)"
proof -
  have "\<not> (byte_at (data m) 1 = Some 64 \<and> (case byte_at (data m) 2 of Some v \<Rightarrow> v < 64 | None \<Rightarrow> False))"
    using assms(2) by (auto simp add: get_controller_def get_value_def split: option.splits)
  then show ?thesis
    using assms(1) by (auto simp add: update_def Let_def MIDIStatus_defs)
qed

lemma update_ControlChange_release:
  assumes "get_status m = ControlChange" and "get_controller m = Some 64"
    and "get_value m = Some v" and "v < 64"
    and "\<forall>h \<in> set (heldNotes s). \<exists>k < length (activeNotes s). get_note h = Some k"
  shows "\<exists>a'. update s m = (Returned, heldNotes s @ [m],
        s\<lparr>controller := array_set (controller s) (Some 64) (Some v),
          activeNotes := a', heldNotes := []\<rparr>)
      \<and> length a' = length (activeNotes s)
      \<and> (\<forall>k < length (activeNotes s).
            a' ! k = drop (length (filter (\<lambda>h. get_note h = Some k) (heldNotes s))) (activeNotes s ! k))"
proof -
  from drain_held_in_range [OF assms(5), of "[]"] obtain a' where
    d: "drain_held (heldNotes s) (activeNotes s) [] = (Returned, [] @ heldNotes s, a')"
    and l: "length a' = length (activeNotes s)"
    and q: "\<forall>k < length (activeNotes s).
            a' ! k = drop (length (filter (\<lambda>h. get_note h = Some k) (heldNotes s))) (activeNotes s ! k)"
    by blast
  have b: "byte_at (data m) 1 = Some 64" "byte_at (data m) 2 = Some v"
    using assms(2,3) by (simp_all add: get_controller_def get_value_def)
  have "update s m = (Returned, heldNotes s @ [m],
        s\<lparr>controller := array_set (controller s) (Some 64) (Some v),
          activeNotes := a', heldNotes := []\<rparr>)"
    using assms(1,4) d b
    by (simp add: update_def Let_def MIDIStatus_defs get_controller_def get_value_def)
  then show ?thesis using l q by blast
qed

lemma makeNoteOn_data: "0 < vel \<Longrightarrow> vel < 256 \<Longrightarrow> data (makeNoteOn flag now 0 60 vel) = [0x90, 60, vel]"
  by (simp add: makeNoteOn_def noteOn_def Uint8Array_of_def MIDIMessage_new_def Let_def NoteOn_def)

lemma makeNoteOff_data: "data (makeNoteOff flag now 0 60 0) = [0x80, 60, 0]"
  by (simp add: makeNoteOff_def noteOff_def Uint8Array_of_def MIDIMessage_new_def Let_def NoteOff_def bit_and_def)

lemma makeControlChange_data: "v < 256 \<Longrightarrow> data (makeControlChange flag now 0 64 v) = [0xB0, 64, v]"
  by (simp add: makeControlChange_def controlChange_def Uint8Array_of_def MIDIMessage_new_def Let_def
      ControlChange_def bit_and_def)

lemma frame_fields:
  "data m = [b0, b1, b2] \<Longrightarrow> get_note m = Some b1"
  "data m = [b0, b1, b2] \<Longrightarrow> get_controller m = Some b1"
  "data m = [b0, b1, b2] \<Longrightarrow> get_value m = Some b2"
  "data m = [b0, b1, b2] \<Longrightarrow> get_status m = message_status (Some b0)"
  by (simp_all add: get_note_def get_controller_def get_value_def get_status_def)

lemma status_values:
  "message_status (Some 0x90) = NoteOn"
  "message_status (Some 0x80) = NoteOff"
  "message_status (Some 0xB0) = ControlChange"
  by (simp_all add: message_status_def bit_and_def MIDIStatus_defs)

lemma new_state_fields:
  "length (activeNotes (MIDIChannelState_new ch)) = 128"
  "k < 128 \<Longrightarrow> activeNotes (MIDIChannelState_new ch) ! k = []"
  "heldNotes (MIDIChannelState_new ch) = []"
  "controller (MIDIChannelState_new ch) = replicate 128 (Some 0)"
  by (simp_all add: MIDIChannelState_new_def)

lemma pedal_run:
  fixes flag now ch
  defines "s0 \<equiv> MIDIChannelState_new ch"
    and "m1 \<equiv> makeNoteOn flag now 0 60 100"
    and "m2 \<equiv> makeControlChange flag now 0 64 127"
    and "m3 \<equiv> makeNoteOff flag now 0 60 0"
    and "m4 \<equiv> makeControlChange flag now 0 64 0"
  shows "fst (run_ops s0 [Update m1, Update m2, Update m3]) = Returned"
    and "activeNotes (snd (run_ops s0 [Update m1, Update m2, Update m3])) ! 60 = [m1]"
    and "heldNotes (snd (run_ops s0 [Update m1, Update m2, Update m3])) = [m3]"
    and "fst (run_ops s0 [Update m1, Update m2, Update m3, Update m4]) = Returned"
    and "activeNotes (snd (run_ops s0 [Update m1, Update m2, Update m3, Update m4])) ! 60 = []"
    and "heldNotes (snd (run_ops s0 [Update m1, Update m2, Update m3, Update m4])) = []"
    and "array_get (controller (snd (run_ops s0 [Update m1, Update m2, Update m3, Update m4]))) 64 = Some 0"
    and "holdOn (snd (run_ops s0 [Update m1, Update m2, Update m3]))"
proof -
  have d1: "data m1 = [0x90, 60, 100]" unfolding m1_def by (rule makeNoteOn_data) simp_all
  have d2: "data m2 = [0xB0, 64, 127]" unfolding m2_def by (rule makeControlChange_data) simp
  have d3: "data m3 = [0x80, 60, 0]" unfolding m3_def by (rule makeNoteOff_data)
  have d4: "data m4 = [0xB0, 64, 0]" unfolding m4_def by (rule makeControlChange_data) simp
  define s1 where "s1 = s0\<lparr>activeNotes := (activeNotes s0)[60 := activeNotes s0 ! 60 @ [m1]]\<rparr>"
  define s2 where "s2 = s1\<lparr>controller := array_set (controller s1) (Some 64) (Some 127)\<rparr>"
  define s3 where "s3 = s2\<lparr>heldNotes := heldNotes s2 @ [m3]\<rparr>"
  have u1: "update s0 m1 = (Returned, [m1], s1)"
    unfolding s1_def
    by (rule update_NoteOn) (simp_all add: frame_fields [OF d1] status_values s0_def new_state_fields)
  have u2: "update s1 m2 = (Returned, [m2], s2)"
    using update_ControlChange_plain [of m2 s1]
    by (simp add: frame_fields [OF d2] status_values s2_def)
  have h2: "holdOn s2"
    by (simp add: holdOn_def s2_def array_get_set_same)
  have u3: "update s2 m3 = (Returned, [], s3)"
    unfolding s3_def using h2
    by (intro update_NoteOff_held) (simp_all add: frame_fields [OF d3] status_values)
  have a3: "activeNotes s3 = (replicate 128 [])[60 := [m1]]" and k3: "heldNotes s3 = [m3]"
    by (simp_all add: s3_def s2_def s1_def s0_def MIDIChannelState_new_def)
  have r3: "run_ops s0 [Update m1, Update m2, Update m3] = (Returned, s3)"
    by (simp add: u1 u2 u3)
  show "fst (run_ops s0 [Update m1, Update m2, Update m3]) = Returned"
    and "activeNotes (snd (run_ops s0 [Update m1, Update m2, Update m3])) ! 60 = [m1]"
    and "heldNotes (snd (run_ops s0 [Update m1, Update m2, Update m3])) = [m3]"
    unfolding r3 by (simp_all add: a3 k3)
  have "holdOn s3" using h2 by (simp add: holdOn_def s3_def)
  then show "holdOn (snd (run_ops s0 [Update m1, Update m2, Update m3]))"
    unfolding r3 by simp
  have "\<forall>h \<in> set (heldNotes s3). \<exists>k < length (activeNotes s3). get_note h = Some k"
    by (simp add: k3 a3 frame_fields [OF d3])
  from update_ControlChange_release [of m4 0 s3, OF _ _ _ _ this]
  obtain a' where u4: "update s3 m4 = (Returned, heldNotes s3 @ [m4],
        s3\<lparr>controller := array_set (controller s3) (Some 64) (Some 0),
          activeNotes := a', heldNotes := []\<rparr>)"
    and q: "\<forall>k < length (activeNotes s3).
            a' ! k = drop (length (filter (\<lambda>h. get_note h = Some k) (heldNotes s3))) (activeNotes s3 ! k)"
    by (auto simp add: frame_fields [OF d4] status_values)
  have r4: "run_ops s0 [Update m1, Update m2, Update m3, Update m4] = (Returned,
        s3\<lparr>controller := array_set (controller s3) (Some 64) (Some 0),
          activeNotes := a', heldNotes := []\<rparr>)"
    by (simp add: u1 u2 u3 u4)
  have "a' ! 60 = []" using q by (simp add: k3 a3 frame_fields [OF d3])
  then show "fst (run_ops s0 [Update m1, Update m2, Update m3, Update m4]) = Returned"
    and "activeNotes (snd (run_ops s0 [Update m1, Update m2, Update m3, Update m4])) ! 60 = []"
    and "heldNotes (snd (run_ops s0 [Update m1, Update m2, Update m3, Update m4])) = []"
    and "array_get (controller (snd (run_ops s0 [Update m1, Update m2, Update m3, Update m4]))) 64 = Some 0"
    unfolding r4 by (simp_all add: array_get_set_same)
qed


lemma retrigger_run:
  fixes flag now ch
  defines "s0 \<equiv> MIDIChannelState_new ch"
    and "m1 \<equiv> makeNoteOn flag now 0 60 100"
    and "m2 \<equiv> makeNoteOn flag now 0 60 90"
    and "m3 \<equiv> makeNoteOff flag now 0 60 0"
  shows "run_ops s0 [Update m1] = (Returned, s0\<lparr>activeNotes := (replicate 128 [])[60 := [m1]]\<rparr>)"
    and "run_ops s0 [Update m1, Update m2] = (Returned, s0\<lparr>activeNotes := (replicate 128 [])[60 := [m1, m2]]\<rparr>)"
    and "run_ops s0 [Update m1, Update m2, Update m3] = (Returned, s0\<lparr>activeNotes := (replicate 128 [])[60 := [m2]]\<rparr>)"
proof -
  have d1: "data m1 = [0x90, 60, 100]" unfolding m1_def by (rule makeNoteOn_data) simp_all
  have d2: "data m2 = [0x90, 60, 90]" unfolding m2_def by (rule makeNoteOn_data) simp_all
  have d3: "data m3 = [0x80, 60, 0]" unfolding m3_def by (rule makeNoteOff_data)
  define s1 where "s1 = s0\<lparr>activeNotes := (replicate 128 [])[60 := [m1]]\<rparr>"
  define s2 where "s2 = s0\<lparr>activeNotes := (replicate 128 [])[60 := [m1, m2]]\<rparr>"
  define s3 where "s3 = s0\<lparr>activeNotes := (replicate 128 [])[60 := [m2]]\<rparr>"
  have u1: "update s0 m1 = (Returned, [m1], s1)"
    using update_NoteOn [of m1 60 s0]
    by (simp add: frame_fields [OF d1] status_values s0_def s1_def MIDIChannelState_new_def)
  have u2: "update s1 m2 = (Returned, [m2], s2)"
    using update_NoteOn [of m2 60 s1]
    by (simp add: frame_fields [OF d2] status_values s0_def s1_def s2_def MIDIChannelState_new_def)
  have h2: "\<not> holdOn s2"
    by (simp add: holdOn_def s2_def s0_def MIDIChannelState_new_def array_get_def)
  have u3: "update s2 m3 = (Returned, [m3], s3)"
    using update_NoteOff_free [of m3 s2 60] h2
    by (simp add: frame_fields [OF d3] status_values s0_def s3_def s2_def MIDIChannelState_new_def)
  show "run_ops s0 [Update m1] = (Returned, s0\<lparr>activeNotes := (replicate 128 [])[60 := [m1]]\<rparr>)"
    by (simp add: u1 s1_def)
  show "run_ops s0 [Update m1, Update m2] = (Returned, s0\<lparr>activeNotes := (replicate 128 [])[60 := [m1, m2]]\<rparr>)"
    by (simp add: u1 u2 s2_def)
  show "run_ops s0 [Update m1, Update m2, Update m3] = (Returned, s0\<lparr>activeNotes := (replicate 128 [])[60 := [m2]]\<rparr>)"
    by (simp add: u1 u2 u3 s3_def)
qed

subsection \<open>Sustain pedal\<close>

text \<open>
  Claim C1. In every channel state with hold on, an update with a Note-Off message returns
  with the message appended to the held notes and nothing else changed (no occurrence queue
  is popped, no observer is called). In every channel state whose held messages have note
  numbers that index an occurrence queue, an update with a Control-Change message that sets
  controller 64 to a value below 64 returns, hands the held messages to the observers
  oldest first and then the message itself, leaves hold off and the held queue empty, and
  has removed from the front of each note's queue as many occurrences as there were held
  messages for that note. For Note-On 60, Control-Change 64 = 127, Note-Off 60,
  Control-Change 64 = 0 on a new channel state: after the third message the queue of note
  60 still holds the Note-On and the Note-Off is held; after the fourth both are empty.
\<close>

theorem hold_defers_release:
  "(holdOn s \<and> get_status m = NoteOff \<longrightarrow>
      update s m = (Returned, [], s\<lparr>heldNotes := heldNotes s @ [m]\<rparr>))
   \<and> (get_status c = ControlChange \<and> get_controller c = Some 64 \<and> get_value c = Some v \<and> v < 64
       \<and> (\<forall>h \<in> set (heldNotes s). \<exists>k < length (activeNotes s). get_note h = Some k) \<longrightarrow>
         fst (update s c) = Returned
       \<and> fst (snd (update s c)) = heldNotes s @ [c]
       \<and> heldNotes (state_of (update s c)) = []
       \<and> \<not> holdOn (state_of (update s c))
       \<and> length (activeNotes (state_of (update s c))) = length (activeNotes s)
       \<and> (\<forall>k < length (activeNotes s).
             activeNotes (state_of (update s c)) ! k
               = drop (length (filter (\<lambda>h. get_note h = Some k) (heldNotes s))) (activeNotes s ! k)))
   \<and> fst (run_ops (MIDIChannelState_new ch) (take 3 (pedal_sequence flag now))) = Returned
   \<and> activeNotes (snd (run_ops (MIDIChannelState_new ch) (take 3 (pedal_sequence flag now)))) ! 60
        = [makeNoteOn flag now 0 60 100]
   \<and> heldNotes (snd (run_ops (MIDIChannelState_new ch) (take 3 (pedal_sequence flag now))))
        = [makeNoteOff flag now 0 60 0]
   \<and> fst (run_ops (MIDIChannelState_new ch) (pedal_sequence flag now)) = Returned
   \<and> activeNotes (snd (run_ops (MIDIChannelState_new ch) (pedal_sequence flag now))) ! 60 = []
   \<and> heldNotes (snd (run_ops (MIDIChannelState_new ch) (pedal_sequence flag now))) = []"
proof -
  have p1: "holdOn s \<and> get_status m = NoteOff \<longrightarrow>
      update s m = (Returned, [], s\<lparr>heldNotes := heldNotes s @ [m]\<rparr>)"
    by (simp add: update_NoteOff_held)
  have p2: "get_status c = ControlChange \<and> get_controller c = Some 64 \<and> get_value c = Some v \<and> v < 64
       \<and> (\<forall>h \<in> set (heldNotes s). \<exists>k < length (activeNotes s). get_note h = Some k) \<longrightarrow>
         fst (update s c) = Returned
       \<and> fst (snd (update s c)) = heldNotes s @ [c]
       \<and> heldNotes (state_of (update s c)) = []
       \<and> \<not> holdOn (state_of (update s c))
       \<and> length (activeNotes (state_of (update s c))) = length (activeNotes s)
       \<and> (\<forall>k < length (activeNotes s).
             activeNotes (state_of (update s c)) ! k
               = drop (length (filter (\<lambda>h. get_note h = Some k) (heldNotes s))) (activeNotes s ! k))"
  proof
    assume a: "get_status c = ControlChange \<and> get_controller c = Some 64 \<and> get_value c = Some v \<and> v < 64
       \<and> (\<forall>h \<in> set (heldNotes s). \<exists>k < length (activeNotes s). get_note h = Some k)"
    then have held: "\<forall>h \<in> set (heldNotes s). \<exists>k < length (activeNotes s). get_note h = Some k"
      by blast
    from a update_ControlChange_release [of c v s, OF _ _ _ _ held]
    obtain a' where u: "update s c = (Returned, heldNotes s @ [c],
        s\<lparr>controller := array_set (controller s) (Some 64) (Some v),
          activeNotes := a', heldNotes := []\<rparr>)"
      and l: "length a' = length (activeNotes s)"
      and q: "\<forall>k < length (activeNotes s).
            a' ! k = drop (length (filter (\<lambda>h. get_note h = Some k) (heldNotes s))) (activeNotes s ! k)"
      by blast
    have "\<not> holdOn (state_of (update s c))"
      using a by (simp add: u holdOn_def array_get_set_same)
    then show "fst (update s c) = Returned
       \<and> fst (snd (update s c)) = heldNotes s @ [c]
       \<and> heldNotes (state_of (update s c)) = []
       \<and> \<not> holdOn (state_of (update s c))
       \<and> length (activeNotes (state_of (update s c))) = length (activeNotes s)
       \<and> (\<forall>k < length (activeNotes s).
             activeNotes (state_of (update s c)) ! k
               = drop (length (filter (\<lambda>h. get_note h = Some k) (heldNotes s))) (activeNotes s ! k))"
      using l q by (simp add: u)
  qed
  have t3: "take 3 (pedal_sequence flag now) =
      [Update (makeNoteOn flag now 0 60 100), Update (makeControlChange flag now 0 64 127),
       Update (makeNoteOff flag now 0 60 0)]"
    by (simp add: pedal_sequence_def)
  show ?thesis
    using p1 p2 pedal_run [of ch flag now]
    unfolding t3 unfolding pedal_sequence_def by blast
qed


theorem hold_defers_release_witness:
  "update ((MIDIChannelState_new 0)
             \<lparr>controller := (replicate 128 (Some 0))[64 := Some 127],
              heldNotes := [\<lparr>data = [0x80, 60, 0], time = 5\<rparr>]\<rparr>)
          \<lparr>data = [0x80, 62, 0], time = 6\<rparr>
     = (Returned, [],
        (MIDIChannelState_new 0)
             \<lparr>controller := (replicate 128 (Some 0))[64 := Some 127],
              heldNotes := [\<lparr>data = [0x80, 60, 0], time = 5\<rparr>, \<lparr>data = [0x80, 62, 0], time = 6\<rparr>]\<rparr>)
   \<and> fst (snd (update ((MIDIChannelState_new 0)
             \<lparr>controller := (replicate 128 (Some 0))[64 := Some 127],
              heldNotes := [\<lparr>data = [0x80, 60, 0], time = 5\<rparr>]\<rparr>)
          \<lparr>data = [0xB0, 64, 0], time = 7\<rparr>))
       = [\<lparr>data = [0x80, 60, 0], time = 5\<rparr>, \<lparr>data = [0xB0, 64, 0], time = 7\<rparr>]
   \<and> heldNotes (state_of (update ((MIDIChannelState_new 0)
             \<lparr>controller := (replicate 128 (Some 0))[64 := Some 127],
              heldNotes := [\<lparr>data = [0x80, 60, 0], time = 5\<rparr>]\<rparr>)
          \<lparr>data = [0xB0, 64, 0], time = 7\<rparr>)) = []"
  using hold_defers_release [of
      "(MIDIChannelState_new 0)
             \<lparr>controller := (replicate 128 (Some 0))[64 := Some 127],
              heldNotes := [\<lparr>data = [0x80, 60, 0], time = 5\<rparr>]\<rparr>"
      "\<lparr>data = [0x80, 62, 0], time = 6\<rparr>"
      "\<lparr>data = [0xB0, 64, 0], time = 7\<rparr>" 0 0 True 5]
  by (simp add: holdOn_def array_get_def get_status_def message_status_def bit_and_def
      MIDIStatus_defs get_controller_def get_value_def get_note_def MIDIChannelState_new_def)

subsection \<open>Held notes and hold\<close>

lemma array_get_set:
  "array_get (array_set xs i v) j = (if i = Some j then v else array_get xs j)"
  by (cases i) (auto simp add: array_get_def array_set_def nth_append)

lemma update_keeps_low:
  assumes "update s m = (Returned, out, s')"
    and "(\<exists>v. array_get (controller s) 64 = Some v \<and> v < 64) \<longrightarrow> heldNotes s = []"
  shows "(\<exists>v. array_get (controller s') 64 = Some v \<and> v < 64) \<longrightarrow> heldNotes s' = []"
  using assms
  by (auto simp add: update_def Let_def holdOn_def array_get_set get_controller_def get_value_def
      split: if_splits option.splits prod.splits outcome.splits)

lemma update_keeps_hold:
  assumes "update s m = (Returned, out, s')"
    and "get_status m = ControlChange \<and> get_controller m = Some 64 \<longrightarrow> get_value m \<noteq> None"
    and "heldNotes s \<noteq> [] \<longrightarrow> holdOn s"
  shows "heldNotes s' \<noteq> [] \<longrightarrow> holdOn s'"
  using assms
  by (auto simp add: update_def Let_def holdOn_def array_get_set get_controller_def get_value_def
      split: if_splits option.splits prod.splits outcome.splits)

lemma update_releasing:
  assumes "update s m = (Returned, out, s')"
    and "get_status m = ControlChange \<and> get_controller m = Some 64 \<longrightarrow> get_value m \<noteq> None"
    and "holdOn s" and "\<not> holdOn s'"
  shows "heldNotes s' = []"
  using assms
  by (auto simp add: update_def Let_def holdOn_def array_get_set get_controller_def get_value_def
      split: if_splits option.splits prod.splits outcome.splits)


lemma reset_fields:
  "heldNotes (reset s) = []"
  "array_get (controller (reset s)) 64 = Some 0"
  by (simp_all add: reset_def reset_table_def array_get_def nth_append)

lemma run_ops_keeps_low:
  assumes "run_ops s0 ops = (Returned, s)"
    and "(\<exists>v. array_get (controller s0) 64 = Some v \<and> v < 64) \<longrightarrow> heldNotes s0 = []"
  shows "(\<exists>v. array_get (controller s) 64 = Some v \<and> v < 64) \<longrightarrow> heldNotes s = []"
  using assms
proof (induction ops arbitrary: s0)
  case Nil
  then show ?case by simp
next
  case (Cons op ops)
  show ?case
  proof (cases op)
    case Reset
    then have "run_ops (reset s0) ops = (Returned, s)" using Cons.prems(1) by simp
    then show ?thesis by (rule Cons.IH) (simp add: reset_fields)
  next
    case (Update m)
    obtain r out s1 where u: "update s0 m = (r, out, s1)" by (cases "update s0 m") auto
    show ?thesis
    proof (cases r)
      case Returned
      then have "run_ops s1 ops = (Returned, s)" using Cons.prems(1) Update u by simp
      moreover have "(\<exists>v. array_get (controller s1) 64 = Some v \<and> v < 64) \<longrightarrow> heldNotes s1 = []"
        using u Cons.prems(2) unfolding Returned by (rule update_keeps_low)
      ultimately show ?thesis by (rule Cons.IH)
    next
      case TypeError
      then show ?thesis using Cons.prems(1) Update u by simp
    qed
  qed
qed

lemma run_ops_keeps_hold:
  assumes "run_ops s0 ops = (Returned, s)"
    and "\<forall>m. Update m \<in> set ops \<and> get_status m = ControlChange \<and> get_controller m = Some 64
            \<longrightarrow> get_value m \<noteq> None"
    and "heldNotes s0 \<noteq> [] \<longrightarrow> holdOn s0"
  shows "heldNotes s \<noteq> [] \<longrightarrow> holdOn s"
  using assms
proof (induction ops arbitrary: s0)
  case Nil
  then show ?case by simp
next
  case (Cons op ops)
  have rest: "\<forall>m. Update m \<in> set ops \<and> get_status m = ControlChange \<and> get_controller m = Some 64
            \<longrightarrow> get_value m \<noteq> None"
    using Cons.prems(2) by simp
  show ?case
  proof (cases op)
    case Reset
    then have "run_ops (reset s0) ops = (Returned, s)" using Cons.prems(1) by simp
    then show ?thesis using rest by (rule Cons.IH) (simp add: reset_fields)
  next
    case (Update m)
    obtain r out s1 where u: "update s0 m = (r, out, s1)" by (cases "update s0 m") auto
    have complete: "get_status m = ControlChange \<and> get_controller m = Some 64 \<longrightarrow> get_value m \<noteq> None"
      using Cons.prems(2) Update by simp
    show ?thesis
    proof (cases r)
      case Returned
      then have "run_ops s1 ops = (Returned, s)" using Cons.prems(1) Update u by simp
      moreover have "heldNotes s1 \<noteq> [] \<longrightarrow> holdOn s1"
        using u complete Cons.prems(3) unfolding Returned by (rule update_keeps_hold)
      ultimately show ?thesis using rest by (intro Cons.IH [of s1]) auto
    next
      case TypeError
      then show ?thesis using Cons.prems(1) Update u by simp
    qed
  qed
qed

lemma run_ops_snoc:
  "fst (run_ops s ops) = Returned \<Longrightarrow>
   run_ops s (ops @ [Update m])
     = (fst (update (snd (run_ops s ops)) m), state_of (update (snd (run_ops s ops)) m))"
proof (induction s ops rule: run_ops.induct)
  case (1 s)
  then show ?case by (cases "update s m" rule: prod_cases3; cases "fst (update s m)") (auto simp add: state_of_def)
next
  case (2 s ops)
  then show ?case by simp
next
  case (3 s m' ops)
  obtain r out s1 where u: "update s m' = (r, out, s1)" by (cases "update s m'") auto
  show ?case
  proof (cases r)
    case Returned
    then show ?thesis using 3 u by simp
  next
    case TypeError
    then show ?thesis using "3.prems" u by simp
  qed
qed

text \<open>
  Updates with messages whose Note-On and Note-Off frames carry a note byte below 128
  never throw, so every sequence of such updates and of resets runs to its end.
\<close>

lemma reset_length: "length (activeNotes (reset s)) = 128 + (length (activeNotes s) - 128)"
  by (simp add: reset_def reset_table_def)

lemma update_returns:
  assumes "notes_in_range s"
    and "get_status m = NoteOn \<or> get_status m = NoteOff \<longrightarrow> (\<exists>k < 128. get_note m = Some k)"
  shows "fst (update s m) = Returned \<and> notes_in_range (state_of (update s m))"
proof -
  have held: "\<forall>h \<in> set (heldNotes s). \<exists>k < length (activeNotes s). get_note h = Some k"
    using assms(1) by (simp add: notes_in_range_def)
  consider (on) "get_status m = NoteOn" | (off) "get_status m = NoteOff"
    | (rel) "get_status m = ControlChange" "get_controller m = Some 64" "\<exists>v. get_value m = Some v \<and> v < 64"
    | (cc) "get_status m = ControlChange" "\<not> (get_controller m = Some 64 \<and> (\<exists>v. get_value m = Some v \<and> v < 64))"
    | (other) "get_status m \<noteq> NoteOn" "get_status m \<noteq> NoteOff" "get_status m \<noteq> ControlChange"
    by blast
  then show ?thesis
  proof cases
    case on
    then obtain k where k: "k < 128" "get_note m = Some k" using assms(2) by blast
    have "update s m = (Returned, [m], s\<lparr>activeNotes := (activeNotes s)[k := activeNotes s ! k @ [m]]\<rparr>)"
      using on k assms(1) by (intro update_NoteOn) (simp_all add: notes_in_range_def)
    then show ?thesis using assms(1) by (simp add: notes_in_range_def)
  next
    case off
    then obtain k where k: "k < 128" "get_note m = Some k" using assms(2) by blast
    show ?thesis
    proof (cases "holdOn s")
      case True
      then have "update s m = (Returned, [], s\<lparr>heldNotes := heldNotes s @ [m]\<rparr>)"
        using off by (intro update_NoteOff_held)
      then show ?thesis using assms(1) k by (auto simp add: notes_in_range_def)
    next
      case False
      then have "update s m = (Returned, [m], s\<lparr>activeNotes := (activeNotes s)[k := tl (activeNotes s ! k)]\<rparr>)"
        using off k assms(1) by (intro update_NoteOff_free) (simp_all add: notes_in_range_def)
      then show ?thesis using assms(1) by (simp add: notes_in_range_def)
    qed
  next
    case rel
    then obtain v where v: "get_value m = Some v" "v < 64" by blast
    from update_ControlChange_release [OF rel(1,2) v held] obtain a' where
      "update s m = (Returned, heldNotes s @ [m],
        s\<lparr>controller := array_set (controller s) (Some 64) (Some v),
          activeNotes := a', heldNotes := []\<rparr>)"
      and "length a' = length (activeNotes s)" by blast
    then show ?thesis using assms(1) by (simp add: notes_in_range_def)
  next
    case cc
    then have "update s m = (Returned, [m],
      s\<lparr>controller := array_set (controller s) (get_controller m) (get_value m)\<rparr>)"
      by (intro update_ControlChange_plain)
    then show ?thesis using assms(1) by (simp add: notes_in_range_def)
  next
    case other
    then show ?thesis using assms(1)
      by (auto simp add: update_def Let_def notes_in_range_def)
  qed
qed

lemma run_ops_returns_from:
  assumes "notes_in_range s"
    and "\<forall>m. Update m \<in> set ops \<and> (get_status m = NoteOn \<or> get_status m = NoteOff)
            \<longrightarrow> (\<exists>k < 128. get_note m = Some k)"
  shows "fst (run_ops s ops) = Returned"
  using assms
proof (induction ops arbitrary: s)
  case Nil
  then show ?case by simp
next
  case (Cons op ops)
  have rest: "\<forall>m. Update m \<in> set ops \<and> (get_status m = NoteOn \<or> get_status m = NoteOff)
            \<longrightarrow> (\<exists>k < 128. get_note m = Some k)"
    using Cons.prems(2) by simp
  show ?case
  proof (cases op)
    case Reset
    have "notes_in_range (reset s)"
      using Cons.prems(1) by (simp add: notes_in_range_def reset_def reset_table_def)
    then show ?thesis using Reset Cons.IH rest by simp
  next
    case (Update m)
    have "get_status m = NoteOn \<or> get_status m = NoteOff \<longrightarrow> (\<exists>k < 128. get_note m = Some k)"
      using Cons.prems(2) Update by simp
    with Cons.prems(1) have u: "fst (update s m) = Returned" "notes_in_range (state_of (update s m))"
      using update_returns by blast+
    obtain out s1 where e: "update s m = (Returned, out, s1)"
      using u(1) by (cases "update s m") auto
    then show ?thesis using Update u(2) Cons.IH [of s1] rest by simp
  qed
qed

lemma run_ops_returns:
  assumes "\<forall>m. Update m \<in> set ops \<and> (get_status m = NoteOn \<or> get_status m = NoteOff)
            \<longrightarrow> (\<exists>k < 128. get_note m = Some k)"
  shows "fst (run_ops (MIDIChannelState_new ch) ops) = Returned"
proof -
  have "notes_in_range (MIDIChannelState_new ch)"
    by (simp add: notes_in_range_def MIDIChannelState_new_def)
  then show ?thesis using assms by (rule run_ops_returns_from)
qed

text \<open>
  Claim C3, as amended. Let a sequence of reset operations and of updates that all return
  be run on a new channel state. In the state reached, if controller 64 holds a number below
  64 then the held-notes queue is empty. If moreover every Control-Change frame for
  controller 64 in the sequence carries a value byte, then the held-notes queue is non-empty
  only while hold is on; and a further returning update with such a message that turns hold
  off leaves the held-notes queue empty.
\<close>

theorem held_notes_invariant:
  assumes "fst (run_ops (MIDIChannelState_new ch) ops) = Returned"
  shows "((\<exists>v. array_get (controller (snd (run_ops (MIDIChannelState_new ch) ops))) 64 = Some v \<and> v < 64)
          \<longrightarrow> heldNotes (snd (run_ops (MIDIChannelState_new ch) ops)) = [])
       \<and> ((\<forall>m. Update m \<in> set ops \<and> get_status m = ControlChange \<and> get_controller m = Some 64
                \<longrightarrow> get_value m \<noteq> None)
          \<longrightarrow> \<not> holdOn (snd (run_ops (MIDIChannelState_new ch) ops))
          \<longrightarrow> heldNotes (snd (run_ops (MIDIChannelState_new ch) ops)) = [])
       \<and> ((get_status m = ControlChange \<and> get_controller m = Some 64 \<longrightarrow> get_value m \<noteq> None)
          \<and> holdOn (snd (run_ops (MIDIChannelState_new ch) ops))
          \<and> fst (update (snd (run_ops (MIDIChannelState_new ch) ops)) m) = Returned
          \<and> \<not> holdOn (state_of (update (snd (run_ops (MIDIChannelState_new ch) ops)) m))
          \<longrightarrow> heldNotes (state_of (update (snd (run_ops (MIDIChannelState_new ch) ops)) m)) = [])"
proof -
  define s where "s = snd (run_ops (MIDIChannelState_new ch) ops)"
  have run: "run_ops (MIDIChannelState_new ch) ops = (Returned, s)"
    using assms by (simp add: s_def prod_eq_iff)
  have init: "heldNotes (MIDIChannelState_new ch) = []"
    by (simp add: MIDIChannelState_new_def)
  have low: "(\<exists>v. array_get (controller s) 64 = Some v \<and> v < 64) \<longrightarrow> heldNotes s = []"
    using run by (rule run_ops_keeps_low) (simp add: init)
  have hold: "(\<forall>m. Update m \<in> set ops \<and> get_status m = ControlChange \<and> get_controller m = Some 64
                \<longrightarrow> get_value m \<noteq> None) \<longrightarrow> \<not> holdOn s \<longrightarrow> heldNotes s = []"
    using run_ops_keeps_hold [OF run] init by blast
  have rel: "(get_status m = ControlChange \<and> get_controller m = Some 64 \<longrightarrow> get_value m \<noteq> None)
          \<and> holdOn s \<and> fst (update s m) = Returned \<and> \<not> holdOn (state_of (update s m))
          \<longrightarrow> heldNotes (state_of (update s m)) = []"
  proof
    assume a: "(get_status m = ControlChange \<and> get_controller m = Some 64 \<longrightarrow> get_value m \<noteq> None)
          \<and> holdOn s \<and> fst (update s m) = Returned \<and> \<not> holdOn (state_of (update s m))"
    obtain out s1 where u: "update s m = (Returned, out, s1)"
      using a by (cases "update s m") auto
    show "heldNotes (state_of (update s m)) = []"
      using update_releasing [OF u] a by (simp add: u)
  qed
  show ?thesis using low hold rel unfolding s_def by blast
qed

text \<open>
  The claim as stated fails for a Control-Change frame without its value byte: after
  Control-Change 64 = 127, Note-Off 60 and the 2-byte frame 0xB0, 64, all three updates
  having returned, controller 64 is \<^verbatim>\<open>undefined\<close>, hold is off, and the Note-Off is still
  held.
\<close>

theorem held_notes_invariant_counterexample:
  "fst (run_ops (MIDIChannelState_new 0)
         [Update (makeControlChange True 5 0 64 127),
          Update (makeNoteOff True 5 0 60 0),
          Update (MIDIMessage_new True 5 [0xB0, 64] None)]) = Returned
   \<and> \<not> holdOn (snd (run_ops (MIDIChannelState_new 0)
         [Update (makeControlChange True 5 0 64 127),
          Update (makeNoteOff True 5 0 60 0),
          Update (MIDIMessage_new True 5 [0xB0, 64] None)]))
   \<and> heldNotes (snd (run_ops (MIDIChannelState_new 0)
         [Update (makeControlChange True 5 0 64 127),
          Update (makeNoteOff True 5 0 60 0),
          Update (MIDIMessage_new True 5 [0xB0, 64] None)])) = [makeNoteOff True 5 0 60 0]"
proof -
  define s0 where "s0 = MIDIChannelState_new 0"
  define m1 where "m1 = makeControlChange True 5 0 64 127"
  define m2 where "m2 = makeNoteOff True 5 0 60 0"
  define m3 where "m3 = MIDIMessage_new True 5 [0xB0, 64] None"
  have d1: "data m1 = [0xB0, 64, 127]" unfolding m1_def by (rule makeControlChange_data) simp
  have d2: "data m2 = [0x80, 60, 0]" unfolding m2_def by (rule makeNoteOff_data)
  have d3: "data m3 = [0xB0, 64]" by (simp add: m3_def MIDIMessage_new_def)
  have f3: "get_status m3 = ControlChange" "get_controller m3 = Some 64" "get_value m3 = None"
    by (simp_all add: get_status_def get_controller_def get_value_def d3 status_values)
  define s1 where "s1 = s0\<lparr>controller := array_set (controller s0) (Some 64) (Some 127)\<rparr>"
  define s2 where "s2 = s1\<lparr>heldNotes := heldNotes s1 @ [m2]\<rparr>"
  define s3 where "s3 = s2\<lparr>controller := array_set (controller s2) (Some 64) None\<rparr>"
  have u1: "update s0 m1 = (Returned, [m1], s1)"
    using update_ControlChange_plain [of m1 s0]
    by (simp add: frame_fields [OF d1] status_values s1_def)
  have h1: "holdOn s1" by (simp add: holdOn_def s1_def array_get_set)
  have u2: "update s1 m2 = (Returned, [], s2)"
    unfolding s2_def using h1
    by (intro update_NoteOff_held) (simp_all add: frame_fields [OF d2] status_values)
  have u3: "update s2 m3 = (Returned, [m3], s3)"
    using update_ControlChange_plain [of m3 s2] by (simp add: f3 s3_def)
  have r: "run_ops s0 [Update m1, Update m2, Update m3] = (Returned, s3)"
    by (simp add: u1 u2 u3)
  have "\<not> holdOn s3" by (simp add: holdOn_def s3_def array_get_set)
  moreover have "heldNotes s3 = [m2]"
    by (simp add: s3_def s2_def s1_def s0_def MIDIChannelState_new_def)
  ultimately show ?thesis
    unfolding s0_def [symmetric] m1_def [symmetric] m2_def [symmetric] m3_def [symmetric] r
    by simp
qed

theorem held_notes_invariant_witness:
  "heldNotes (snd (run_ops (MIDIChannelState_new 0)
      [Update (makeNoteOn True 5 0 60 100), Update (makeControlChange True 5 0 64 127),
       Update (makeNoteOff True 5 0 60 0), Update (makeControlChange True 5 0 64 0)])) = []
   \<and> \<not> holdOn (snd (run_ops (MIDIChannelState_new 0)
      [Update (makeNoteOn True 5 0 60 100), Update (makeControlChange True 5 0 64 127),
       Update (makeNoteOff True 5 0 60 0), Update (makeControlChange True 5 0 64 0)]))
   \<and> heldNotes (state_of (update (snd (run_ops (MIDIChannelState_new 0)
      [Update (makeNoteOn True 5 0 60 100), Update (makeControlChange True 5 0 64 127),
       Update (makeNoteOff True 5 0 60 0)])) (makeControlChange True 5 0 64 0))) = []"
proof -
  define s0 where "s0 = MIDIChannelState_new 0"
  define m1 where "m1 = makeNoteOn True 5 0 60 100"
  define m2 where "m2 = makeControlChange True 5 0 64 127"
  define m3 where "m3 = makeNoteOff True 5 0 60 0"
  define m4 where "m4 = makeControlChange True 5 0 64 0"
  note run = pedal_run [of 0 True 5, folded s0_def m1_def m2_def m3_def m4_def]
  have d: "data m1 = [0x90, 60, 100]" "data m2 = [0xB0, 64, 127]" "data m3 = [0x80, 60, 0]"
    "data m4 = [0xB0, 64, 0]"
    by (simp_all add: m1_def m2_def m3_def m4_def makeNoteOn_data makeControlChange_data makeNoteOff_data)
  have v: "get_value m1 \<noteq> None" "get_value m2 \<noteq> None" "get_value m3 \<noteq> None" "get_value m4 \<noteq> None"
    by (simp_all add: get_value_def d)
  have complete: "\<forall>m. Update m \<in> set [Update m1, Update m2, Update m3, Update m4]
      \<and> get_status m = ControlChange \<and> get_controller m = Some 64 \<longrightarrow> get_value m \<noteq> None"
    using v by auto
  have low: "\<exists>v. array_get (controller (snd (run_ops s0 [Update m1, Update m2, Update m3, Update m4]))) 64
      = Some v \<and> v < 64"
    using run(7) by simp
  have off: "\<not> holdOn (snd (run_ops s0 [Update m1, Update m2, Update m3, Update m4]))"
    using run(7) by (simp add: holdOn_def)
  note inv4 = held_notes_invariant [of 0 "[Update m1, Update m2, Update m3, Update m4]" m4,
      folded s0_def, OF run(4)]
  have w1: "heldNotes (snd (run_ops s0 [Update m1, Update m2, Update m3, Update m4])) = []"
    using inv4 low by blast
  have w2: "\<not> holdOn (snd (run_ops s0 [Update m1, Update m2, Update m3, Update m4]))
      \<and> heldNotes (snd (run_ops s0 [Update m1, Update m2, Update m3, Update m4])) = []"
    using inv4 complete off by blast
  have sn: "run_ops s0 ([Update m1, Update m2, Update m3] @ [Update m4])
      = (fst (update (snd (run_ops s0 [Update m1, Update m2, Update m3])) m4),
         state_of (update (snd (run_ops s0 [Update m1, Update m2, Update m3])) m4))"
    using run(1) by (rule run_ops_snoc)
  have ret: "fst (update (snd (run_ops s0 [Update m1, Update m2, Update m3])) m4) = Returned"
    using run(4) sn by simp
  have off': "\<not> holdOn (state_of (update (snd (run_ops s0 [Update m1, Update m2, Update m3])) m4))"
    using off sn by simp
  note inv3 = held_notes_invariant [of 0 "[Update m1, Update m2, Update m3]" m4,
      folded s0_def, OF run(1)]
  have w3: "heldNotes (state_of (update (snd (run_ops s0 [Update m1, Update m2, Update m3])) m4)) = []"
    using inv3 v(4) run(8) ret off' by blast
  show ?thesis
    using w1 w2 w3 unfolding s0_def m1_def m2_def m3_def m4_def by blast
qed


subsection \<open>Retrigger\<close>

text \<open>
  Claim C2. In every channel state with hold off, an update with a Note-On message for a
  note \<open>n\<close> that has an occurrence queue appends the message to that queue, and an update
  with a Note-Off message for \<open>n\<close> removes the first, oldest, element of that queue (an
  empty queue stays empty); no other queue changes. Note-On 60, Note-On 60, Note-Off 60 on a
  new channel state give the queue of note 60 the lengths 1, 2, 1, and what remains is the
  second Note-On.
\<close>

theorem retrigger_queue:
  "(\<not> holdOn s \<and> get_status m = NoteOn \<and> get_note m = Some n \<and> n < length (activeNotes s) \<longrightarrow>
      update s m = (Returned, [m], s\<lparr>activeNotes := (activeNotes s)[n := activeNotes s ! n @ [m]]\<rparr>))
   \<and> (\<not> holdOn s \<and> get_status m = NoteOff \<and> get_note m = Some n \<and> n < length (activeNotes s) \<longrightarrow>
      update s m = (Returned, [m], s\<lparr>activeNotes := (activeNotes s)[n := tl (activeNotes s ! n)]\<rparr>))
   \<and> fst (run_ops (MIDIChannelState_new ch) (retrigger_sequence flag now)) = Returned
   \<and> map (\<lambda>k. length (activeNotes (snd (run_ops (MIDIChannelState_new ch)
                (take k (retrigger_sequence flag now)))) ! 60)) [0, 1, 2, 3] = [0, 1, 2, 1]
   \<and> activeNotes (snd (run_ops (MIDIChannelState_new ch) (retrigger_sequence flag now))) ! 60
        = [makeNoteOn flag now 0 60 90]"
proof -
  have p1: "\<not> holdOn s \<and> get_status m = NoteOn \<and> get_note m = Some n \<and> n < length (activeNotes s) \<longrightarrow>
      update s m = (Returned, [m], s\<lparr>activeNotes := (activeNotes s)[n := activeNotes s ! n @ [m]]\<rparr>)"
    by (simp add: update_NoteOn)
  have p2: "\<not> holdOn s \<and> get_status m = NoteOff \<and> get_note m = Some n \<and> n < length (activeNotes s) \<longrightarrow>
      update s m = (Returned, [m], s\<lparr>activeNotes := (activeNotes s)[n := tl (activeNotes s ! n)]\<rparr>)"
    by (simp add: update_NoteOff_free)
  note run = retrigger_run [of ch flag now]
  have t: "take 0 (retrigger_sequence flag now) = []"
    "take 1 (retrigger_sequence flag now) = [Update (makeNoteOn flag now 0 60 100)]"
    "take 2 (retrigger_sequence flag now) =
       [Update (makeNoteOn flag now 0 60 100), Update (makeNoteOn flag now 0 60 90)]"
    "take 3 (retrigger_sequence flag now) = retrigger_sequence flag now"
    by (simp_all add: retrigger_sequence_def)
  have whole: "run_ops (MIDIChannelState_new ch) (retrigger_sequence flag now)
      = (Returned, MIDIChannelState_new ch
           \<lparr>activeNotes := (replicate 128 [])[60 := [makeNoteOn flag now 0 60 90]]\<rparr>)"
    unfolding retrigger_sequence_def by (rule run(3))
  have p3: "fst (run_ops (MIDIChannelState_new ch) (retrigger_sequence flag now)) = Returned"
    by (simp add: whole)
  have p4: "map (\<lambda>k. length (activeNotes (snd (run_ops (MIDIChannelState_new ch)
                (take k (retrigger_sequence flag now)))) ! 60)) [0, 1, 2, 3] = [0, 1, 2, 1]"
    unfolding list.map t whole run(1) run(2) by (simp add: new_state_fields)
  have p5: "activeNotes (snd (run_ops (MIDIChannelState_new ch) (retrigger_sequence flag now))) ! 60
        = [makeNoteOn flag now 0 60 90]"
    by (simp add: whole)
  show ?thesis using p1 p2 p3 p4 p5 by blast
qed

theorem retrigger_queue_witness:
  "update (MIDIChannelState_new 0) \<lparr>data = [0x90, 60, 100], time = 5\<rparr>
     = (Returned, [\<lparr>data = [0x90, 60, 100], time = 5\<rparr>],
        (MIDIChannelState_new 0)\<lparr>activeNotes := (replicate 128 [])[60 := [\<lparr>data = [0x90, 60, 100], time = 5\<rparr>]]\<rparr>)
   \<and> update ((MIDIChannelState_new 0)\<lparr>activeNotes := (replicate 128 [])[60 :=
          [\<lparr>data = [0x90, 60, 100], time = 5\<rparr>, \<lparr>data = [0x90, 60, 90], time = 6\<rparr>]]\<rparr>)
        \<lparr>data = [0x80, 60, 0], time = 7\<rparr>
     = (Returned, [\<lparr>data = [0x80, 60, 0], time = 7\<rparr>],
        (MIDIChannelState_new 0)\<lparr>activeNotes := (replicate 128 [])[60 := [\<lparr>data = [0x90, 60, 90], time = 6\<rparr>]]\<rparr>)"
  using retrigger_queue [of "MIDIChannelState_new 0" "\<lparr>data = [0x90, 60, 100], time = 5\<rparr>" 60 0 True 5]
    retrigger_queue [of "(MIDIChannelState_new 0)\<lparr>activeNotes := (replicate 128 [])[60 :=
          [\<lparr>data = [0x90, 60, 100], time = 5\<rparr>, \<lparr>data = [0x90, 60, 90], time = 6\<rparr>]]\<rparr>"
        "\<lparr>data = [0x80, 60, 0], time = 7\<rparr>" 60 0 True 5]
  by (simp add: holdOn_def array_get_def get_status_def message_status_def bit_and_def
      MIDIStatus_defs get_note_def MIDIChannelState_new_def)


section \<open>Properties of the exchange\<close>

subsection \<open>Starting twice\<close>

lemma example_exchange_started:
  "start example_exchange =
     (None, example_exchange\<lparr>handle := Some 0, promise := Pending,
        sent := [[0xF0, 0x7E, 0x10, 0x06, 0x01]], liveTimers := [0], timersCreated := 1\<rparr>)"
  by (simp add: start_def startExchangeEvent_def example_exchange_def MIDIExchange_new_def
      identity_request_def universalNRTSysEx_def Uint8Array_of_def SystemExclusive_def Let_def)

text \<open>
  Claim C4 says that a second \<^verbatim>\<open>start\<close> while the exchange runs, or after it has
  completed, fails and leaves the first run as it is. \<^const>\<open>start\<close> tests the flags
  \<^const>\<open>isRunning\<close> and \<^const>\<open>isCompleted\<close>, and nothing ever sets them. For the example
  exchange of two events: the first start succeeds and leaves the running flag false; a
  second start succeeds too, sends the first request again and creates a second timer; after
  the first event has completed, a start succeeds and puts the event index back to 0; after
  both events have completed and the promise is resolved, the completed flag is false and a
  start succeeds again. Only the start of an exchange without events fails.
\<close>

theorem start_twice_not_rejected:
  "fst (start example_exchange) = None
   \<and> isRunning (snd (start example_exchange)) = False
   \<and> fst (start (snd (start example_exchange))) = None
   \<and> sent (snd (start example_exchange)) = [[0xF0, 0x7E, 0x10, 0x06, 0x01]]
   \<and> sent (snd (start (snd (start example_exchange))))
        = [[0xF0, 0x7E, 0x10, 0x06, 0x01], [0xF0, 0x7E, 0x10, 0x06, 0x01]]
   \<and> liveTimers (snd (start (snd (start example_exchange)))) = [0, 1]
   \<and> eventIndex (snd (onMidiMessage (snd (start example_exchange)) [0xF0, 0x7E, 0x10, 0x06, 0x02])) = 1
   \<and> fst (start (snd (onMidiMessage (snd (start example_exchange)) [0xF0, 0x7E, 0x10, 0x06, 0x02]))) = None
   \<and> eventIndex (snd (start (snd (onMidiMessage (snd (start example_exchange))
          [0xF0, 0x7E, 0x10, 0x06, 0x02])))) = 0
   \<and> promise (snd (onMidiMessage (snd (onMidiMessage (snd (start example_exchange))
          [0xF0, 0x7E, 0x10, 0x06, 0x02])) [0xF0, 0x43, 0x21, 0xF7])) = Resolved
   \<and> isCompleted (snd (onMidiMessage (snd (onMidiMessage (snd (start example_exchange))
          [0xF0, 0x7E, 0x10, 0x06, 0x02])) [0xF0, 0x43, 0x21, 0xF7])) = False
   \<and> fst (start (snd (onMidiMessage (snd (onMidiMessage (snd (start example_exchange))
          [0xF0, 0x7E, 0x10, 0x06, 0x02])) [0xF0, 0x43, 0x21, 0xF7]))) = None
   \<and> fst (start (MIDIExchange_new example_device [] None)) = Some NoExchangeEvents"
  unfolding example_exchange_started
  by (simp add: start_def startExchangeEvent_def onMidiMessage_def resolve_def
      example_exchange_def MIDIExchange_new_def
      identity_request_def second_request_def universalNRTSysEx_def Uint8Array_of_def
      SystemExclusive_def Let_def)

lemma flags_never_set:
  "isRunning (snd (start x)) = isRunning x \<and> isCompleted (snd (start x)) = isCompleted x"
  "isRunning (snd (onMidiMessage x d)) = isRunning x \<and> isCompleted (snd (onMidiMessage x d)) = isCompleted x"
  by (auto simp add: start_def startExchangeEvent_def onMidiMessage_def resolve_def Let_def
      split: option.splits promise_state.splits prod.splits)


subsection \<open>Defaulting of the descriptor ids\<close>

lemma effective_omit_zero:
  "effective_id dev (omit_zero_fields r) = effective_id dev r"
  "effective_deviceId dev (omit_zero_fields r) = effective_deviceId dev r"
  by (auto simp add: effective_id_def effective_deviceId_def omit_zero_fields_def
      split: option.splits sysex_id.splits)

lemma descriptor_matches_omit_zero:
  "descriptor_matches dev d (omit_zero_fields r) = descriptor_matches dev d r"
  by (simp add: descriptor_matches_def effective_omit_zero) (simp add: omit_zero_fields_def)

lemma take_match_omit_zero:
  "take_match dev d (map omit_zero_fields rs) = map_option (map omit_zero_fields) (take_match dev d rs)"
  by (induction rs) (auto simp add: descriptor_matches_omit_zero split: option.splits)

lemma startExchangeEvent_omit_zero:
  "startExchangeEvent (omit_zero_exchange x)
     = (fst (startExchangeEvent x), omit_zero_exchange (snd (startExchangeEvent x)))"
  by (auto simp add: startExchangeEvent_def omit_zero_exchange_def omit_zero_event_def Let_def
      split: response_field.splits)

lemma resolve_omit_zero:
  "resolve (omit_zero_exchange x) = (fst (resolve x), omit_zero_exchange (snd (resolve x)))"
  by (auto simp add: resolve_def omit_zero_exchange_def Let_def split: promise_state.splits)

lemma onMidiMessage_omit_zero:
  "onMidiMessage (omit_zero_exchange x) d
     = (fst (onMidiMessage x d), omit_zero_exchange (snd (onMidiMessage x d)))"
  by (auto simp add: onMidiMessage_def startExchangeEvent_def resolve_def omit_zero_exchange_def
      omit_zero_event_def take_match_omit_zero Let_def
      split: option.splits response_field.splits promise_state.splits)

text \<open>
  Claim C10, as amended. In the matcher of inbound frames a descriptor whose id field is the
  number 0, or whose device id field is 0, is matched exactly as with the field omitted:
  the id, respectively the device id, of the owning device is what the frame is compared
  with, and an exchange in which every such field is replaced by an omitted one handles
  every frame in the same way. So the matcher requires the single manufacturer-id byte 0
  only when the device's own manufacturer id is the number 0, and the device id 0 only when
  the device's own device id is 0. An array id is never replaced.
\<close>

theorem zero_field_is_omitted:
  "descriptor_matches dev d (r\<lparr>req_id := Some (IdNumber 0)\<rparr>) = descriptor_matches dev d (r\<lparr>req_id := None\<rparr>)
   \<and> descriptor_matches dev d (r\<lparr>req_deviceId := Some 0\<rparr>) = descriptor_matches dev d (r\<lparr>req_deviceId := None\<rparr>)
   \<and> descriptor_matches dev d (r\<lparr>req_id := None, req_deviceId := None\<rparr>)
        = validateSysEx d (manufacturerId dev) (Some (deviceId dev)) (req_header r)
   \<and> onMidiMessage (omit_zero_exchange x) d
        = (fst (onMidiMessage x d), omit_zero_exchange (snd (onMidiMessage x d)))
   \<and> (effective_id dev r = IdNumber 0 \<longrightarrow> manufacturerId dev = IdNumber 0)
   \<and> (effective_deviceId dev r = 0 \<longrightarrow> deviceId dev = 0)
   \<and> (req_id r = Some (IdArray a) \<longrightarrow> effective_id dev r = IdArray a)"
proof (intro conjI)
  show "descriptor_matches dev d (r\<lparr>req_id := Some (IdNumber 0)\<rparr>) = descriptor_matches dev d (r\<lparr>req_id := None\<rparr>)"
    by (simp add: descriptor_matches_def effective_id_def effective_deviceId_def)
  show "descriptor_matches dev d (r\<lparr>req_deviceId := Some 0\<rparr>) = descriptor_matches dev d (r\<lparr>req_deviceId := None\<rparr>)"
    by (simp add: descriptor_matches_def effective_id_def effective_deviceId_def)
  show "descriptor_matches dev d (r\<lparr>req_id := None, req_deviceId := None\<rparr>)
        = validateSysEx d (manufacturerId dev) (Some (deviceId dev)) (req_header r)"
    by (simp add: descriptor_matches_def effective_id_def effective_deviceId_def)
  show "onMidiMessage (omit_zero_exchange x) d
        = (fst (onMidiMessage x d), omit_zero_exchange (snd (onMidiMessage x d)))"
    by (rule onMidiMessage_omit_zero)
  show "effective_id dev r = IdNumber 0 \<longrightarrow> manufacturerId dev = IdNumber 0"
    by (auto simp add: effective_id_def split: option.splits sysex_id.splits if_splits)
  show "effective_deviceId dev r = 0 \<longrightarrow> deviceId dev = 0"
    by (auto simp add: effective_deviceId_def split: option.splits if_splits)
  show "req_id r = Some (IdArray a) \<longrightarrow> effective_id dev r = IdArray a"
    by (simp add: effective_id_def)
qed

theorem zero_field_is_omitted_witness:
  "effective_id \<lparr>manufacturerId = IdNumber 0, deviceId = 0\<rparr>
       \<lparr>req_id = Some (IdNumber 0), req_deviceId = Some 0, req_header = None\<rparr> = IdNumber 0
   \<and> effective_deviceId \<lparr>manufacturerId = IdNumber 0, deviceId = 0\<rparr>
       \<lparr>req_id = Some (IdNumber 0), req_deviceId = Some 0, req_header = None\<rparr> = 0
   \<and> manufacturerId \<lparr>manufacturerId = IdNumber 0, deviceId = 0\<rparr> = IdNumber 0
   \<and> effective_id \<lparr>manufacturerId = IdNumber 0x43, deviceId = 0x10\<rparr>
       \<lparr>req_id = Some (IdArray [0x00, 0x20, 0x33]), req_deviceId = None, req_header = None\<rparr>
       = IdArray [0x00, 0x20, 0x33]
   \<and> descriptor_matches \<lparr>manufacturerId = IdNumber 0x43, deviceId = 0x10\<rparr> [0xF0, 0x43, 0x10, 0xF7]
       \<lparr>req_id = Some (IdNumber 0), req_deviceId = Some 0, req_header = None\<rparr>"
  using zero_field_is_omitted [of "\<lparr>manufacturerId = IdNumber 0, deviceId = 0\<rparr>" "[]"
      "\<lparr>req_id = Some (IdNumber 0), req_deviceId = Some 0, req_header = None\<rparr>"
      example_exchange "[]"]
    zero_field_is_omitted [of "\<lparr>manufacturerId = IdNumber 0x43, deviceId = 0x10\<rparr>" "[0xF0, 0x43, 0x10, 0xF7]"
      "\<lparr>req_id = Some (IdArray [0x00, 0x20, 0x33]), req_deviceId = None, req_header = None\<rparr>"
      example_exchange "[0x00, 0x20, 0x33]"]
    zero_field_is_omitted [of "\<lparr>manufacturerId = IdNumber 0x43, deviceId = 0x10\<rparr>" "[0xF0, 0x43, 0x10, 0xF7]"
      "\<lparr>req_id = Some (IdNumber 0), req_deviceId = Some 0, req_header = None\<rparr>"
      example_exchange "[]"]
  by (simp add: effective_id_def effective_deviceId_def descriptor_matches_def validateSysEx_def
      validate_tail_def SystemExclusive_def)

text \<open>
  The claim as stated says that no descriptor can require the manufacturer-id byte 0 or the
  device id 0. A descriptor with the array id 0x00, 0x20, 0x33 accepts a frame whose
  manufacturer-id bytes are these and rejects the frame that differs in the lead byte 0x00;
  and on a device whose device id is 0, a descriptor with device id 0 accepts the frame
  with device-id byte 0x00 and rejects the one with 0x05.
\<close>

theorem zero_field_is_omitted_counterexample:
  "descriptor_matches \<lparr>manufacturerId = IdNumber 0x43, deviceId = 0x10\<rparr>
       [0xF0, 0x00, 0x20, 0x33, 0x10, 0xF7]
       \<lparr>req_id = Some (IdArray [0x00, 0x20, 0x33]), req_deviceId = None, req_header = None\<rparr>
   \<and> \<not> descriptor_matches \<lparr>manufacturerId = IdNumber 0x43, deviceId = 0x10\<rparr>
       [0xF0, 0x01, 0x20, 0x33, 0x10, 0xF7]
       \<lparr>req_id = Some (IdArray [0x00, 0x20, 0x33]), req_deviceId = None, req_header = None\<rparr>
   \<and> descriptor_matches \<lparr>manufacturerId = IdNumber 0x43, deviceId = 0\<rparr>
       [0xF0, 0x43, 0x00, 0xF7]
       \<lparr>req_id = Some (IdNumber 0x43), req_deviceId = Some 0, req_header = None\<rparr>
   \<and> \<not> descriptor_matches \<lparr>manufacturerId = IdNumber 0x43, deviceId = 0\<rparr>
       [0xF0, 0x43, 0x05, 0xF7]
       \<lparr>req_id = Some (IdNumber 0x43), req_deviceId = Some 0, req_header = None\<rparr>"
  by (simp add: effective_id_def effective_deviceId_def descriptor_matches_def validateSysEx_def
      validate_tail_def SystemExclusive_def)


end
